theory Spec2Isabelle
  imports Main "HOL-Library.Word"
begin

unbundle bit_operations_syntax

section \<open>Machine types\<close>

text \<open>
  \<^verbatim>\<open>include/swift/Reflection/TypeRef.h\<close>. The header is compiled for an LP64,
  little-endian target: a pointer is 8 bytes (so \<^verbatim>\<open>sizeof(const T *) > 4\<close> holds in
  \<^verbatim>\<open>addPointer\<close>), \<^verbatim>\<open>unsigned\<close> is 32 bits and \<^verbatim>\<open>size_t\<close> is 64 bits.
  \<^verbatim>\<open>nullptr\<close> is the address 0. Whether plain \<^verbatim>\<open>char\<close> is signed is left to the
  platform by C++; it is the parameter \<open>sc\<close> of every function that converts a
  \<^verbatim>\<open>char\<close> to \<^verbatim>\<open>uint32_t\<close>.
\<close>

type_synonym uint32_t = "32 word"
type_synonym uint64_t = "64 word"
type_synonym ptr = "64 word"

definition nullptr :: ptr where
  "nullptr = 0"

text \<open>\<^verbatim>\<open>(uint32_t) c\<close> for a \<^verbatim>\<open>char c\<close>: sign extension when \<^verbatim>\<open>char\<close> is signed, zero
  extension otherwise.\<close>

definition char_to_uint32 :: "bool \<Rightarrow> char \<Rightarrow> uint32_t" where
  "char_to_uint32 sc c =
     (if sc then scast (of_char c :: 8 word) else ucast (of_char c :: 8 word))"

section \<open>TypeRefID\<close>

record TypeRefID =
  Bits :: "uint32_t list"

text \<open>\<^verbatim>\<open>TypeRefID() = default\<close>: no words yet.\<close>

definition TypeRefID_new :: TypeRefID where
  "TypeRefID_new = \<lparr>Bits = []\<rparr>"

text \<open>\<^verbatim>\<open>addPointer\<close>: \<^verbatim>\<open>Raw[0]\<close> is the low half of the address, \<^verbatim>\<open>Raw[1]\<close> the high half.\<close>

definition addPointer :: "ptr \<Rightarrow> TypeRefID \<Rightarrow> TypeRefID" where
  "addPointer Pointer ID =
     ID\<lparr>Bits := (Bits ID @ [ucast Pointer]) @ [ucast (drop_bit 32 Pointer)]\<rparr>"

text \<open>\<^verbatim>\<open>addInteger(uint32_t)\<close>.\<close>

definition addInteger :: "uint32_t \<Rightarrow> TypeRefID \<Rightarrow> TypeRefID" where
  "addInteger Integer ID = ID\<lparr>Bits := Bits ID @ [Integer]\<rparr>"

text \<open>\<^verbatim>\<open>addInteger(uint64_t)\<close>: \<^verbatim>\<open>(uint32_t)Integer\<close>, then \<^verbatim>\<open>Integer >> 32\<close> narrowed
  to the element type.\<close>

definition addInteger64 :: "uint64_t \<Rightarrow> TypeRefID \<Rightarrow> TypeRefID" where
  "addInteger64 Integer ID =
     ID\<lparr>Bits := (Bits ID @ [ucast Integer]) @ [ucast (drop_bit 32 Integer)]\<rparr>"

text \<open>The word that one iteration of the first loop of \<^verbatim>\<open>addString\<close> builds from
  \<^verbatim>\<open>String[i] .. String[i+3]\<close>.\<close>

definition chunk_entry :: "bool \<Rightarrow> string \<Rightarrow> nat \<Rightarrow> uint32_t" where
  "chunk_entry sc String i =
     char_to_uint32 sc (String ! i) +
     push_bit 8 (char_to_uint32 sc (String ! (i + 1))) +
     push_bit 16 (char_to_uint32 sc (String ! (i + 2))) +
     push_bit 24 (char_to_uint32 sc (String ! (i + 3)))"

text \<open>\<^verbatim>\<open>for (size_t chunk = 0; chunk < chunks; ++chunk, i+=4)\<close>: the state is
  \<open>(chunk, i, Bits)\<close>, the result \<open>(i, Bits)\<close> when the loop exits.\<close>

function addString_chunks ::
  "bool \<Rightarrow> string \<Rightarrow> nat \<Rightarrow> nat \<Rightarrow> nat \<Rightarrow> uint32_t list \<Rightarrow> nat \<times> uint32_t list" where
  "addString_chunks sc String chunks chunk i bits =
     (if chunk < chunks
      then addString_chunks sc String chunks (chunk + 1) (i + 4)
             (bits @ [chunk_entry sc String i])
      else (i, bits))"
  by pat_completeness auto
termination
  by (relation "measure (\<lambda>(sc, String, chunks, chunk, i, bits). chunks - chunk)") auto

text \<open>\<^verbatim>\<open>for (; i < String.size(); ++i) Bits.push_back(String[i]);\<close>\<close>

function addString_tail :: "bool \<Rightarrow> string \<Rightarrow> nat \<Rightarrow> uint32_t list \<Rightarrow> uint32_t list" where
  "addString_tail sc String i bits =
     (if i < length String
      then addString_tail sc String (i + 1) (bits @ [char_to_uint32 sc (String ! i)])
      else bits)"
  by pat_completeness auto
termination
  by (relation "measure (\<lambda>(sc, String, i, bits). length String - i)") auto

definition addString :: "bool \<Rightarrow> string \<Rightarrow> TypeRefID \<Rightarrow> TypeRefID" where
  "addString sc String ID =
     (if String = [] then ID\<lparr>Bits := Bits ID @ [0]\<rparr>
      else
        let chunks = length String div 4;
            (i, bits) = addString_chunks sc String chunks 0 0 (Bits ID)
        in ID\<lparr>Bits := addString_tail sc String i bits\<rparr>)"

text \<open>\<^verbatim>\<open>TypeRefID::Equal\<close> and \<^verbatim>\<open>operator==\<close>: \<^verbatim>\<open>lhs.Bits == rhs.Bits\<close>, the equality of
  \<^verbatim>\<open>std::vector\<close> (same size, equal elements at every index).\<close>

definition vector_eq :: "'a list \<Rightarrow> 'a list \<Rightarrow> bool" where
  "vector_eq xs ys = (length xs = length ys \<and> list_all2 (=) xs ys)"

definition Equal :: "TypeRefID \<Rightarrow> TypeRefID \<Rightarrow> bool" where
  "Equal lhs rhs = vector_eq (Bits lhs) (Bits rhs)"

declare addString_chunks.simps [simp del]
declare addString_tail.simps [simp del]

section \<open>The TypeRef variant family\<close>

text \<open>
  Modelled from the spec: the enumerators of \<^verbatim>\<open>enum class TypeRefKind\<close> come from
  \<^verbatim>\<open>swift/Reflection/TypeRefs.def\<close> and \<^verbatim>\<open>swift/AST/ReferenceStorage.def\<close>, which are
  missing. There is one enumerator per class that the header declares with a
  \<^verbatim>\<open>TypeRefKind::Id\<close>, in the order of the spec's variant table, the reference-storage
  family being weak, unowned and unmanaged.
\<close>

datatype TypeRefKind =
    Builtin
  | Nominal
  | BoundGeneric
  | Tuple
  | OpaqueArchetype
  | Function
  | ProtocolComposition
  | Metatype
  | ExistentialMetatype
  | GenericTypeParameter
  | DependentMember
  | ForeignClass
  | ObjCClass
  | ObjCProtocol
  | Opaque
  | WeakStorage
  | UnownedStorage
  | UnmanagedStorage
  | SILBox

text \<open>
  Modelled from the spec: \<^verbatim>\<open>remote::FunctionParam<const TypeRef *>\<close>, \<^verbatim>\<open>ParameterFlags\<close>
  and \<^verbatim>\<open>FunctionTypeFlags\<close> are declared in headers that are missing
  (\<^verbatim>\<open>swift/Remote/MetadataReader.h\<close>, \<^verbatim>\<open>swift/ABI/MetadataValues.h\<close>). After the spec a
  parameter is a label, a type reference and per-parameter flags. The header reads the
  flags through \<^verbatim>\<open>getIntValue()\<close> only, cast to \<^verbatim>\<open>uint32_t\<close> for a parameter and to
  \<^verbatim>\<open>uint64_t\<close> for a function, so flags are represented by that integer.
\<close>

record Param =
  getLabel :: string
  getType :: ptr
  getFlags :: uint32_t

text \<open>
  \<^verbatim>\<open>llvm::ArrayRef<const TypeRef *>(data, length)\<close> as stored in
  \<^verbatim>\<open>OpaqueArchetypeTypeRef::ArgumentLists\<close>: \<open>Data\<close> is a position in the node's own
  \<^verbatim>\<open>AllArgumentsBuf\<close>, counted in elements from \<^verbatim>\<open>AllArgumentsBuf.data()\<close>.
\<close>

record ArrayRef =
  Data :: nat
  Length :: nat

text \<open>The fields each class adds to the base class \<^verbatim>\<open>TypeRef\<close>, in declaration order.\<close>

datatype TypeRefFields =
    BuiltinFields (MangledName: string)
  | NominalFields (MangledName: string) (Parent: ptr)
  | BoundGenericFields (MangledName: string) (Parent: ptr) (GenericParams: "ptr list")
  | TupleFields (Elements: "ptr list") (Labels: string)
  | OpaqueArchetypeFields (ID: string) (Description: string) (Ordinal: uint32_t)
      (AllArgumentsBuf: "ptr list") (ArgumentLists: "ArrayRef list")
  | FunctionFields (Parameters: "Param list") (Result: ptr) (Flags: uint64_t)
  | ProtocolCompositionFields (Protocols: "ptr list") (Superclass: ptr)
      (HasExplicitAnyObject: bool)
  | MetatypeFields (InstanceType: ptr) (WasAbstract: bool)
  | ExistentialMetatypeFields (InstanceType: ptr)
  | GenericTypeParameterFields (Depth: uint32_t) (Index: uint32_t)
  | DependentMemberFields (Member: string) (Base: ptr) (Protocol: string)
  | ForeignClassFields (Name: string)
  | ObjCClassFields (Name: string)
  | ObjCProtocolFields (Name: string)
  | OpaqueFields
  | ReferenceStorageFields (Type: ptr)
  | SILBoxFields (BoxedType: ptr)

text \<open>An object of the hierarchy: the base class's \<^verbatim>\<open>Kind\<close> and the derived class's
  fields.\<close>

record TypeRef =
  Kind :: TypeRefKind
  Fields :: TypeRefFields

definition getKind :: "TypeRef \<Rightarrow> TypeRefKind" where
  "getKind TR = Kind TR"

datatype error =
    AssertionFailed
  | BadAlloc
  | NullDereference
  | Unreachable
  | OutOfFuel

subsection \<open>Constructors\<close>

text \<open>Each constructor passes its own \<^verbatim>\<open>TypeRefKind\<close> to the base class and stores its
  arguments.\<close>

definition BuiltinTypeRef :: "string \<Rightarrow> TypeRef" where
  "BuiltinTypeRef MangledName' =
     \<lparr>Kind = Builtin, Fields = BuiltinFields MangledName'\<rparr>"

definition NominalTypeRef :: "string \<Rightarrow> ptr \<Rightarrow> TypeRef" where
  "NominalTypeRef MangledName' Parent' =
     \<lparr>Kind = Nominal, Fields = NominalFields MangledName' Parent'\<rparr>"

definition BoundGenericTypeRef :: "string \<Rightarrow> ptr list \<Rightarrow> ptr \<Rightarrow> TypeRef" where
  "BoundGenericTypeRef MangledName' GenericParams' Parent' =
     \<lparr>Kind = BoundGeneric, Fields = BoundGenericFields MangledName' Parent' GenericParams'\<rparr>"

definition TupleTypeRef :: "ptr list \<Rightarrow> string \<Rightarrow> TypeRef" where
  "TupleTypeRef Elements' Labels' =
     \<lparr>Kind = Tuple, Fields = TupleFields Elements' Labels'\<rparr>"

text \<open>
  The body of the \<^verbatim>\<open>OpaqueArchetypeTypeRef\<close> constructor. The first loop records
  \<^verbatim>\<open>argList.size()\<close> in a \<^verbatim>\<open>std::vector<unsigned>\<close> (a narrowing to 32 bits) and appends
  the list to \<^verbatim>\<open>AllArgumentsBuf\<close>; the second loop publishes one view per recorded length,
  advancing \<^verbatim>\<open>data\<close>; the final \<^verbatim>\<open>assert\<close> compares \<^verbatim>\<open>data\<close> with the end of the buffer.
\<close>

definition copy_argumentLists :: "ptr list list \<Rightarrow> uint32_t list \<times> ptr list" where
  "copy_argumentLists argumentLists =
     fold (\<lambda>argList (argumentListLengths, buf).
             (argumentListLengths @ [of_nat (length argList)], buf @ argList))
       argumentLists ([], [])"

definition publish_views :: "uint32_t list \<Rightarrow> nat \<times> ArrayRef list" where
  "publish_views argumentListLengths =
     fold (\<lambda>len (data, views).
             (data + unat len, views @ [\<lparr>Data = data, Length = unat len\<rparr>]))
       argumentListLengths (0, [])"

definition OpaqueArchetypeTypeRef ::
  "string \<Rightarrow> string \<Rightarrow> uint32_t \<Rightarrow> ptr list list \<Rightarrow> error + TypeRef" where
  "OpaqueArchetypeTypeRef id' description ordinal argumentLists =
     (let (argumentListLengths, buf) = copy_argumentLists argumentLists;
          (data, views) = publish_views argumentListLengths
      in if data = length buf
         then Inr \<lparr>Kind = OpaqueArchetype,
                   Fields = OpaqueArchetypeFields id' description ordinal buf views\<rparr>
         else Inl AssertionFailed)"

definition FunctionTypeRef :: "Param list \<Rightarrow> ptr \<Rightarrow> uint64_t \<Rightarrow> TypeRef" where
  "FunctionTypeRef Params Result' Flags' =
     \<lparr>Kind = Function, Fields = FunctionFields Params Result' Flags'\<rparr>"

definition ProtocolCompositionTypeRef :: "ptr list \<Rightarrow> ptr \<Rightarrow> bool \<Rightarrow> TypeRef" where
  "ProtocolCompositionTypeRef Protocols' Superclass' HasExplicitAnyObject' =
     \<lparr>Kind = ProtocolComposition,
      Fields = ProtocolCompositionFields Protocols' Superclass' HasExplicitAnyObject'\<rparr>"

definition MetatypeTypeRef :: "ptr \<Rightarrow> bool \<Rightarrow> TypeRef" where
  "MetatypeTypeRef InstanceType' WasAbstract' =
     \<lparr>Kind = Metatype, Fields = MetatypeFields InstanceType' WasAbstract'\<rparr>"

definition ExistentialMetatypeTypeRef :: "ptr \<Rightarrow> TypeRef" where
  "ExistentialMetatypeTypeRef InstanceType' =
     \<lparr>Kind = ExistentialMetatype, Fields = ExistentialMetatypeFields InstanceType'\<rparr>"

definition GenericTypeParameterTypeRef :: "uint32_t \<Rightarrow> uint32_t \<Rightarrow> TypeRef" where
  "GenericTypeParameterTypeRef Depth' Index' =
     \<lparr>Kind = GenericTypeParameter, Fields = GenericTypeParameterFields Depth' Index'\<rparr>"

definition DependentMemberTypeRef :: "string \<Rightarrow> ptr \<Rightarrow> string \<Rightarrow> TypeRef" where
  "DependentMemberTypeRef Member' Base' Protocol' =
     \<lparr>Kind = DependentMember, Fields = DependentMemberFields Member' Base' Protocol'\<rparr>"

definition ForeignClassTypeRef :: "string \<Rightarrow> TypeRef" where
  "ForeignClassTypeRef Name' = \<lparr>Kind = ForeignClass, Fields = ForeignClassFields Name'\<rparr>"

definition ObjCClassTypeRef :: "string \<Rightarrow> TypeRef" where
  "ObjCClassTypeRef Name' = \<lparr>Kind = ObjCClass, Fields = ObjCClassFields Name'\<rparr>"

definition ObjCProtocolTypeRef :: "string \<Rightarrow> TypeRef" where
  "ObjCProtocolTypeRef Name' = \<lparr>Kind = ObjCProtocol, Fields = ObjCProtocolFields Name'\<rparr>"

definition OpaqueTypeRef :: TypeRef where
  "OpaqueTypeRef = \<lparr>Kind = Opaque, Fields = OpaqueFields\<rparr>"

text \<open>The protected constructor of the base class of the storage family takes the kind
  from the derived class; \<^verbatim>\<open>REF_STORAGE\<close> generates one derived class per qualifier.\<close>

definition ReferenceStorageTypeRef :: "TypeRefKind \<Rightarrow> ptr \<Rightarrow> TypeRef" where
  "ReferenceStorageTypeRef Kind' Type' = \<lparr>Kind = Kind', Fields = ReferenceStorageFields Type'\<rparr>"

definition WeakStorageTypeRef :: "ptr \<Rightarrow> TypeRef" where
  "WeakStorageTypeRef Type' = ReferenceStorageTypeRef WeakStorage Type'"

definition UnownedStorageTypeRef :: "ptr \<Rightarrow> TypeRef" where
  "UnownedStorageTypeRef Type' = ReferenceStorageTypeRef UnownedStorage Type'"

definition UnmanagedStorageTypeRef :: "ptr \<Rightarrow> TypeRef" where
  "UnmanagedStorageTypeRef Type' = ReferenceStorageTypeRef UnmanagedStorage Type'"

definition SILBoxTypeRef :: "ptr \<Rightarrow> TypeRef" where
  "SILBoxTypeRef BoxedType' = \<lparr>Kind = SILBox, Fields = SILBoxFields BoxedType'\<rparr>"

subsection \<open>classof\<close>

text \<open>\<^verbatim>\<open>static bool classof(const TypeRef *TR)\<close> of each class.\<close>

definition BuiltinTypeRef_classof :: "TypeRef \<Rightarrow> bool" where
  "BuiltinTypeRef_classof TR = (getKind TR = Builtin)"

definition NominalTypeRef_classof :: "TypeRef \<Rightarrow> bool" where
  "NominalTypeRef_classof TR = (getKind TR = Nominal)"

definition BoundGenericTypeRef_classof :: "TypeRef \<Rightarrow> bool" where
  "BoundGenericTypeRef_classof TR = (getKind TR = BoundGeneric)"

definition TupleTypeRef_classof :: "TypeRef \<Rightarrow> bool" where
  "TupleTypeRef_classof TR = (getKind TR = Tuple)"

definition OpaqueArchetypeTypeRef_classof :: "TypeRef \<Rightarrow> bool" where
  "OpaqueArchetypeTypeRef_classof TR = (getKind TR = OpaqueArchetype)"

definition FunctionTypeRef_classof :: "TypeRef \<Rightarrow> bool" where
  "FunctionTypeRef_classof TR = (getKind TR = Function)"

definition ProtocolCompositionTypeRef_classof :: "TypeRef \<Rightarrow> bool" where
  "ProtocolCompositionTypeRef_classof TR = (getKind TR = ProtocolComposition)"

definition MetatypeTypeRef_classof :: "TypeRef \<Rightarrow> bool" where
  "MetatypeTypeRef_classof TR = (getKind TR = Metatype)"

definition ExistentialMetatypeTypeRef_classof :: "TypeRef \<Rightarrow> bool" where
  "ExistentialMetatypeTypeRef_classof TR = (getKind TR = ExistentialMetatype)"

definition GenericTypeParameterTypeRef_classof :: "TypeRef \<Rightarrow> bool" where
  "GenericTypeParameterTypeRef_classof TR = (getKind TR = GenericTypeParameter)"

definition DependentMemberTypeRef_classof :: "TypeRef \<Rightarrow> bool" where
  "DependentMemberTypeRef_classof TR = (getKind TR = DependentMember)"

definition ForeignClassTypeRef_classof :: "TypeRef \<Rightarrow> bool" where
  "ForeignClassTypeRef_classof TR = (getKind TR = ForeignClass)"

definition ObjCClassTypeRef_classof :: "TypeRef \<Rightarrow> bool" where
  "ObjCClassTypeRef_classof TR = (getKind TR = ObjCClass)"

definition ObjCProtocolTypeRef_classof :: "TypeRef \<Rightarrow> bool" where
  "ObjCProtocolTypeRef_classof TR = (getKind TR = ObjCProtocol)"

definition OpaqueTypeRef_classof :: "TypeRef \<Rightarrow> bool" where
  "OpaqueTypeRef_classof TR = (getKind TR = Opaque)"

definition WeakStorageTypeRef_classof :: "TypeRef \<Rightarrow> bool" where
  "WeakStorageTypeRef_classof TR = (getKind TR = WeakStorage)"

definition UnownedStorageTypeRef_classof :: "TypeRef \<Rightarrow> bool" where
  "UnownedStorageTypeRef_classof TR = (getKind TR = UnownedStorage)"

definition UnmanagedStorageTypeRef_classof :: "TypeRef \<Rightarrow> bool" where
  "UnmanagedStorageTypeRef_classof TR = (getKind TR = UnmanagedStorage)"

definition SILBoxTypeRef_classof :: "TypeRef \<Rightarrow> bool" where
  "SILBoxTypeRef_classof TR = (getKind TR = SILBox)"

text \<open>\<^verbatim>\<open>llvm::isa<IdTypeRef>(TR)\<close>, which \<^verbatim>\<open>cast\<close> and \<^verbatim>\<open>dyn_cast\<close> consult: the \<^verbatim>\<open>classof\<close> of
  the class named by \<open>Id\<close>.\<close>

fun isa :: "TypeRefKind \<Rightarrow> TypeRef \<Rightarrow> bool" where
  "isa Builtin TR = BuiltinTypeRef_classof TR"
| "isa Nominal TR = NominalTypeRef_classof TR"
| "isa BoundGeneric TR = BoundGenericTypeRef_classof TR"
| "isa Tuple TR = TupleTypeRef_classof TR"
| "isa OpaqueArchetype TR = OpaqueArchetypeTypeRef_classof TR"
| "isa Function TR = FunctionTypeRef_classof TR"
| "isa ProtocolComposition TR = ProtocolCompositionTypeRef_classof TR"
| "isa Metatype TR = MetatypeTypeRef_classof TR"
| "isa ExistentialMetatype TR = ExistentialMetatypeTypeRef_classof TR"
| "isa GenericTypeParameter TR = GenericTypeParameterTypeRef_classof TR"
| "isa DependentMember TR = DependentMemberTypeRef_classof TR"
| "isa ForeignClass TR = ForeignClassTypeRef_classof TR"
| "isa ObjCClass TR = ObjCClassTypeRef_classof TR"
| "isa ObjCProtocol TR = ObjCProtocolTypeRef_classof TR"
| "isa Opaque TR = OpaqueTypeRef_classof TR"
| "isa WeakStorage TR = WeakStorageTypeRef_classof TR"
| "isa UnownedStorage TR = UnownedStorageTypeRef_classof TR"
| "isa UnmanagedStorage TR = UnmanagedStorageTypeRef_classof TR"
| "isa SILBox TR = SILBoxTypeRef_classof TR"

text \<open>\<^verbatim>\<open>ReferenceStorageTypeRef::classof\<close>: the \<^verbatim>\<open>switch\<close> over the storage kinds.\<close>

definition ReferenceStorageTypeRef_classof :: "TypeRef \<Rightarrow> bool" where
  "ReferenceStorageTypeRef_classof TR =
     (case getKind TR of
        WeakStorage \<Rightarrow> True
      | UnownedStorage \<Rightarrow> True
      | UnmanagedStorage \<Rightarrow> True
      | _ \<Rightarrow> False)"

subsection \<open>TupleTypeRef::getLabels\<close>

text \<open>\<^verbatim>\<open>std::string::find(ch, pos)\<close>: the first position \<open>\<ge> pos\<close> holding \<open>ch\<close>;
  \<^verbatim>\<open>npos\<close> is \<open>None\<close>.\<close>

function string_find :: "string \<Rightarrow> char \<Rightarrow> nat \<Rightarrow> nat option" where
  "string_find s ch pos =
     (if length s \<le> pos then None
      else if s ! pos = ch then Some pos
      else string_find s ch (pos + 1))"
  by pat_completeness auto
termination
  by (relation "measure (\<lambda>(s, ch, pos). length s - pos)") auto

declare string_find.simps [simp del]

lemma string_find_Some:
  "string_find s ch pos = Some e \<Longrightarrow> pos \<le> e \<and> e < length s \<and> s ! e = ch"
proof (induction s ch pos rule: string_find.induct)
  case (1 s ch pos)
  show ?case
  proof (cases "length s \<le> pos")
    case True
    with "1.prems" show ?thesis by (simp add: string_find.simps [of s ch pos])
  next
    case False
    show ?thesis
    proof (cases "s ! pos = ch")
      case True
      with False "1.prems" show ?thesis by (auto simp: string_find.simps [of s ch pos])
    next
      case ne: False
      with False "1.prems" have "string_find s ch (pos + 1) = Some e"
        by (simp add: string_find.simps [of s ch pos])
      with "1.IH" False ne show ?thesis by fastforce
    qed
  qed
qed

text \<open>The \<^verbatim>\<open>while (true)\<close> loop: state \<open>(Start, Vec)\<close>;
  \<^verbatim>\<open>llvm::StringRef(Labels.data() + Start, End - Start)\<close> is the substring.\<close>

function getLabels_split :: "string \<Rightarrow> nat \<Rightarrow> string list \<Rightarrow> string list" where
  "getLabels_split Labels' Start Vec =
     (case string_find Labels' CHR '' '' Start of
        None \<Rightarrow> Vec
      | Some End \<Rightarrow>
          getLabels_split Labels' (End + 1) (Vec @ [take (End - Start) (drop Start Labels')]))"
  by pat_completeness auto
termination
proof (relation "measure (\<lambda>(Labels', Start, Vec). length Labels' - Start)")
  show "wf (measure (\<lambda>(Labels', Start, Vec). length Labels' - Start))" by simp
next
  fix Labels' :: string and Start :: nat and Vec :: "string list" and End :: nat
  assume "string_find Labels' CHR '' '' Start = Some End"
  then have "Start \<le> End \<and> End < length Labels'" by (auto dest: string_find_Some)
  then show "((Labels', End + 1, Vec @ [take (End - Start) (drop Start Labels')]),
              (Labels', Start, Vec))
             \<in> measure (\<lambda>(Labels', Start, Vec). length Labels' - Start)"
    by auto
qed

declare getLabels_split.simps [simp del]

text \<open>\<^verbatim>\<open>for (unsigned N = Vec.size(); N < Elements.size(); ++N) Vec.push_back({});\<close>
  The counter is a 32-bit \<^verbatim>\<open>unsigned\<close> compared with a \<^verbatim>\<open>size_t\<close>: were there \<open>2^32\<close>
  elements or more it would wrap before reaching the bound, so the loop is a partial
  function.\<close>

partial_function (option) getLabels_pad ::
  "uint32_t \<Rightarrow> nat \<Rightarrow> string list \<Rightarrow> string list option" where
  "getLabels_pad N n Vec =
     (if unat N < n then getLabels_pad (N + 1) n (Vec @ [[]]) else Some Vec)"

definition getLabels :: "ptr list \<Rightarrow> string \<Rightarrow> string list option" where
  "getLabels Elements' Labels' =
     (let Vec = getLabels_split Labels' 0 []
      in getLabels_pad (of_nat (length Vec)) (length Elements') Vec)"

subsection \<open>Accessors of OpaqueArchetypeTypeRef\<close>

definition getArgumentLists :: "TypeRef \<Rightarrow> ArrayRef list" where
  "getArgumentLists TR = ArgumentLists (Fields TR)"

definition getDescription :: "TypeRef \<Rightarrow> string" where
  "getDescription TR = Description (Fields TR)"

definition getID :: "TypeRef \<Rightarrow> string" where
  "getID TR = ID (Fields TR)"

definition getOrdinal :: "TypeRef \<Rightarrow> uint32_t" where
  "getOrdinal TR = Ordinal (Fields TR)"

text \<open>The elements an \<^verbatim>\<open>ArrayRef\<close> denotes: \<open>Length\<close> elements of the buffer from
  position \<open>Data\<close>.\<close>

definition ArrayRef_elems :: "ptr list \<Rightarrow> ArrayRef \<Rightarrow> ptr list" where
  "ArrayRef_elems buf v = take (Length v) (drop (Data v) buf)"

section \<open>Profile\<close>

text \<open>The static \<^verbatim>\<open>Profile\<close> function of each class. A range-\<^verbatim>\<open>for\<close> over a vector is a
  \<open>fold\<close>; the calls on \<^verbatim>\<open>ID\<close> are applied in source order.\<close>

definition BuiltinTypeRef_Profile :: "bool \<Rightarrow> string \<Rightarrow> TypeRefID" where
  "BuiltinTypeRef_Profile sc MangledName' = addString sc MangledName' TypeRefID_new"

definition NominalTypeTrait_Profile :: "bool \<Rightarrow> string \<Rightarrow> ptr \<Rightarrow> TypeRefID" where
  "NominalTypeTrait_Profile sc MangledName' Parent' =
     addString sc MangledName' (addPointer Parent' TypeRefID_new)"

definition BoundGenericTypeRef_Profile ::
  "bool \<Rightarrow> string \<Rightarrow> ptr list \<Rightarrow> ptr \<Rightarrow> TypeRefID" where
  "BoundGenericTypeRef_Profile sc MangledName' GenericParams' Parent' =
     fold addPointer GenericParams'
       (addString sc MangledName' (addPointer Parent' TypeRefID_new))"

definition TupleTypeRef_Profile :: "bool \<Rightarrow> ptr list \<Rightarrow> string \<Rightarrow> TypeRefID" where
  "TupleTypeRef_Profile sc Elements' Labels' =
     addString sc Labels' (fold addPointer Elements' TypeRefID_new)"

text \<open>\<^verbatim>\<open>OpaqueArchetypeTypeRef::Profile\<close> takes \<^verbatim>\<open>description\<close> and does not read it.\<close>

definition OpaqueArchetypeTypeRef_Profile ::
  "bool \<Rightarrow> string \<Rightarrow> string \<Rightarrow> uint32_t \<Rightarrow> ptr list list \<Rightarrow> TypeRefID" where
  "OpaqueArchetypeTypeRef_Profile sc idString description ordinal argumentLists =
     fold (\<lambda>argList I. fold addPointer argList (addInteger 0 I)) argumentLists
       (addInteger ordinal (addString sc idString TypeRefID_new))"

definition FunctionTypeRef_Profile ::
  "bool \<Rightarrow> Param list \<Rightarrow> ptr \<Rightarrow> uint64_t \<Rightarrow> TypeRefID" where
  "FunctionTypeRef_Profile sc Parameters' Result' Flags' =
     addInteger64 Flags'
       (addPointer Result'
          (fold (\<lambda>P I. addInteger (getFlags P)
                          (addPointer (getType P) (addString sc (getLabel P) I)))
             Parameters' TypeRefID_new))"

definition ProtocolCompositionTypeRef_Profile :: "ptr list \<Rightarrow> ptr \<Rightarrow> bool \<Rightarrow> TypeRefID" where
  "ProtocolCompositionTypeRef_Profile Protocols' Superclass' HasExplicitAnyObject' =
     addPointer Superclass'
       (fold addPointer Protocols'
          (addInteger (if HasExplicitAnyObject' then 1 else 0) TypeRefID_new))"

definition MetatypeTypeRef_Profile :: "ptr \<Rightarrow> bool \<Rightarrow> TypeRefID" where
  "MetatypeTypeRef_Profile InstanceType' WasAbstract' =
     addInteger (if WasAbstract' then 1 else 0) (addPointer InstanceType' TypeRefID_new)"

definition ExistentialMetatypeTypeRef_Profile :: "ptr \<Rightarrow> TypeRefID" where
  "ExistentialMetatypeTypeRef_Profile InstanceType' = addPointer InstanceType' TypeRefID_new"

definition GenericTypeParameterTypeRef_Profile :: "uint32_t \<Rightarrow> uint32_t \<Rightarrow> TypeRefID" where
  "GenericTypeParameterTypeRef_Profile Depth' Index' =
     addInteger Index' (addInteger Depth' TypeRefID_new)"

definition DependentMemberTypeRef_Profile :: "bool \<Rightarrow> string \<Rightarrow> ptr \<Rightarrow> string \<Rightarrow> TypeRefID" where
  "DependentMemberTypeRef_Profile sc Member' Base' Protocol' =
     addString sc Protocol' (addPointer Base' (addString sc Member' TypeRefID_new))"

definition ForeignClassTypeRef_Profile :: "bool \<Rightarrow> string \<Rightarrow> TypeRefID" where
  "ForeignClassTypeRef_Profile sc Name' = addString sc Name' TypeRefID_new"

definition ObjCClassTypeRef_Profile :: "bool \<Rightarrow> string \<Rightarrow> TypeRefID" where
  "ObjCClassTypeRef_Profile sc Name' = addString sc Name' TypeRefID_new"

definition ObjCProtocolTypeRef_Profile :: "bool \<Rightarrow> string \<Rightarrow> TypeRefID" where
  "ObjCProtocolTypeRef_Profile sc Name' = addString sc Name' TypeRefID_new"

definition OpaqueTypeRef_Profile :: TypeRefID where
  "OpaqueTypeRef_Profile = TypeRefID_new"

definition ReferenceStorageTypeRef_Profile :: "ptr \<Rightarrow> TypeRefID" where
  "ReferenceStorageTypeRef_Profile Type' = addPointer Type' TypeRefID_new"

definition SILBoxTypeRef_Profile :: "ptr \<Rightarrow> TypeRefID" where
  "SILBoxTypeRef_Profile BoxedType' = addPointer BoxedType' TypeRefID_new"

section \<open>The uniquing allocator\<close>

text \<open>
  The arguments \<^verbatim>\<open>__VA_ARGS__\<close> that a \<^verbatim>\<open>create\<close> function hands to
  \<^verbatim>\<open>FIND_OR_CREATE_TYPEREF\<close>, tagged with the class \<^verbatim>\<open>TypeRefTy\<close> it names. The macro uses
  them twice: for \<^verbatim>\<open>Profile(__VA_ARGS__)\<close> and for \<^verbatim>\<open>makeTypeRef<TypeRefTy>(__VA_ARGS__)\<close>.
\<close>

text \<open>
  Modelled from the spec: \<^verbatim>\<open>OpaqueTypeRef::get\<close> and the singleton it returns are missing
  (the header declares them, with a private constructor, and defines neither). The spec
  has every node created through the allocator's find-or-create operation and its
  singleton nodes allocator-scoped, so \<open>OpaqueArgs\<close> stands for the find-or-create of the
  one node with the key \<^verbatim>\<open>OpaqueTypeRef::Profile()\<close>.
\<close>

datatype CreateArgs =
    BuiltinArgs string
  | NominalArgs string ptr
  | BoundGenericArgs string "ptr list" ptr
  | TupleArgs "ptr list" string
  | OpaqueArchetypeArgs string string uint32_t "ptr list list"
  | FunctionArgs "Param list" ptr uint64_t
  | ProtocolCompositionArgs "ptr list" ptr bool
  | MetatypeArgs ptr bool
  | ExistentialMetatypeArgs ptr
  | GenericTypeParameterArgs uint32_t uint32_t
  | DependentMemberArgs string ptr string
  | ForeignClassArgs string
  | ObjCClassArgs string
  | ObjCProtocolArgs string
  | OpaqueArgs
  | WeakStorageArgs ptr
  | UnownedStorageArgs ptr
  | UnmanagedStorageArgs ptr
  | SILBoxArgs ptr

text \<open>The class named by the macro's second argument.\<close>

fun TypeRefTy :: "CreateArgs \<Rightarrow> TypeRefKind" where
  "TypeRefTy (BuiltinArgs n) = Builtin"
| "TypeRefTy (NominalArgs n p) = Nominal"
| "TypeRefTy (BoundGenericArgs n gs p) = BoundGeneric"
| "TypeRefTy (TupleArgs es ls) = Tuple"
| "TypeRefTy (OpaqueArchetypeArgs i d ord as) = OpaqueArchetype"
| "TypeRefTy (FunctionArgs ps r fl) = Function"
| "TypeRefTy (ProtocolCompositionArgs ps s h) = ProtocolComposition"
| "TypeRefTy (MetatypeArgs t w) = Metatype"
| "TypeRefTy (ExistentialMetatypeArgs t) = ExistentialMetatype"
| "TypeRefTy (GenericTypeParameterArgs d i) = GenericTypeParameter"
| "TypeRefTy (DependentMemberArgs m b p) = DependentMember"
| "TypeRefTy (ForeignClassArgs n) = ForeignClass"
| "TypeRefTy (ObjCClassArgs n) = ObjCClass"
| "TypeRefTy (ObjCProtocolArgs n) = ObjCProtocol"
| "TypeRefTy OpaqueArgs = Opaque"
| "TypeRefTy (WeakStorageArgs t) = WeakStorage"
| "TypeRefTy (UnownedStorageArgs t) = UnownedStorage"
| "TypeRefTy (UnmanagedStorageArgs t) = UnmanagedStorage"
| "TypeRefTy (SILBoxArgs t) = SILBox"

text \<open>\<^verbatim>\<open>Profile(__VA_ARGS__)\<close> inside the class.\<close>

fun Profile :: "bool \<Rightarrow> CreateArgs \<Rightarrow> TypeRefID" where
  "Profile sc (BuiltinArgs n) = BuiltinTypeRef_Profile sc n"
| "Profile sc (NominalArgs n p) = NominalTypeTrait_Profile sc n p"
| "Profile sc (BoundGenericArgs n gs p) = BoundGenericTypeRef_Profile sc n gs p"
| "Profile sc (TupleArgs es ls) = TupleTypeRef_Profile sc es ls"
| "Profile sc (OpaqueArchetypeArgs i d ord as) = OpaqueArchetypeTypeRef_Profile sc i d ord as"
| "Profile sc (FunctionArgs ps r fl) = FunctionTypeRef_Profile sc ps r fl"
| "Profile sc (ProtocolCompositionArgs ps s h) = ProtocolCompositionTypeRef_Profile ps s h"
| "Profile sc (MetatypeArgs t w) = MetatypeTypeRef_Profile t w"
| "Profile sc (ExistentialMetatypeArgs t) = ExistentialMetatypeTypeRef_Profile t"
| "Profile sc (GenericTypeParameterArgs d i) = GenericTypeParameterTypeRef_Profile d i"
| "Profile sc (DependentMemberArgs m b p) = DependentMemberTypeRef_Profile sc m b p"
| "Profile sc (ForeignClassArgs n) = ForeignClassTypeRef_Profile sc n"
| "Profile sc (ObjCClassArgs n) = ObjCClassTypeRef_Profile sc n"
| "Profile sc (ObjCProtocolArgs n) = ObjCProtocolTypeRef_Profile sc n"
| "Profile sc OpaqueArgs = OpaqueTypeRef_Profile"
| "Profile sc (WeakStorageArgs t) = ReferenceStorageTypeRef_Profile t"
| "Profile sc (UnownedStorageArgs t) = ReferenceStorageTypeRef_Profile t"
| "Profile sc (UnmanagedStorageArgs t) = ReferenceStorageTypeRef_Profile t"
| "Profile sc (SILBoxArgs t) = SILBoxTypeRef_Profile t"

text \<open>The constructor call \<^verbatim>\<open>TypeRefTy(__VA_ARGS__)\<close> that \<^verbatim>\<open>makeTypeRef\<close> performs.\<close>

fun construct :: "CreateArgs \<Rightarrow> error + TypeRef" where
  "construct (BuiltinArgs n) = Inr (BuiltinTypeRef n)"
| "construct (NominalArgs n p) = Inr (NominalTypeRef n p)"
| "construct (BoundGenericArgs n gs p) = Inr (BoundGenericTypeRef n gs p)"
| "construct (TupleArgs es ls) = Inr (TupleTypeRef es ls)"
| "construct (OpaqueArchetypeArgs i d ord as) = OpaqueArchetypeTypeRef i d ord as"
| "construct (FunctionArgs ps r fl) = Inr (FunctionTypeRef ps r fl)"
| "construct (ProtocolCompositionArgs ps s h) = Inr (ProtocolCompositionTypeRef ps s h)"
| "construct (MetatypeArgs t w) = Inr (MetatypeTypeRef t w)"
| "construct (ExistentialMetatypeArgs t) = Inr (ExistentialMetatypeTypeRef t)"
| "construct (GenericTypeParameterArgs d i) = Inr (GenericTypeParameterTypeRef d i)"
| "construct (DependentMemberArgs m b p) = Inr (DependentMemberTypeRef m b p)"
| "construct (ForeignClassArgs n) = Inr (ForeignClassTypeRef n)"
| "construct (ObjCClassArgs n) = Inr (ObjCClassTypeRef n)"
| "construct (ObjCProtocolArgs n) = Inr (ObjCProtocolTypeRef n)"
| "construct OpaqueArgs = Inr OpaqueTypeRef"
| "construct (WeakStorageArgs t) = Inr (WeakStorageTypeRef t)"
| "construct (UnownedStorageArgs t) = Inr (UnownedStorageTypeRef t)"
| "construct (UnmanagedStorageArgs t) = Inr (UnmanagedStorageTypeRef t)"
| "construct (SILBoxArgs t) = Inr (SILBoxTypeRef t)"

text \<open>
  Modelled from the spec: the allocator class (\<^verbatim>\<open>TypeRefBuilder\<close>, the \<^verbatim>\<open>Allocator\<close>
  template argument) is missing from the header, which only uses its members
  \<^verbatim>\<open>TypeRefTy##s\<close> (\<^verbatim>\<open>find\<close>, \<^verbatim>\<open>end\<close>, \<^verbatim>\<open>insert\<close>) and \<^verbatim>\<open>makeTypeRef\<close>. After the spec, it
  owns every node it creates for its whole lifetime and keeps one cache per kind from
  identity key to node. \<open>Pool\<close> is the arena, in creation order; the node at position
  \<open>i\<close> has the address \<open>i + 1\<close>. \<open>TypeRefs K\<close> is the cache member of the class of kind
  \<open>K\<close>, a map keyed by \<^verbatim>\<open>TypeRefID\<close> and compared by \<^verbatim>\<open>TypeRefID::Equal\<close>, kept as the list
  of its entries in insertion order. \<^verbatim>\<open>TypeRefID::Hash\<close> only selects a bucket and is not
  modelled.
\<close>

record Allocator =
  Pool :: "TypeRef list"
  TypeRefs :: "TypeRefKind \<Rightarrow> (TypeRefID \<times> ptr) list"

definition Allocator_new :: Allocator where
  "Allocator_new = \<lparr>Pool = [], TypeRefs = (\<lambda>K. [])\<rparr>"

text \<open>\<^verbatim>\<open>find(ID)\<close>: the entry whose key is \<^verbatim>\<open>Equal\<close> to \<^verbatim>\<open>ID\<close>; \<^verbatim>\<open>end()\<close> is \<open>None\<close>.\<close>

fun find_entry :: "(TypeRefID \<times> ptr) list \<Rightarrow> TypeRefID \<Rightarrow> ptr option" where
  "find_entry [] I = None"
| "find_entry ((k, v) # es) I = (if Equal k I then Some v else find_entry es I)"

text \<open>\<^verbatim>\<open>insert({ID, TR})\<close>: adds the entry unless the key is present.\<close>

definition insert_entry ::
  "(TypeRefID \<times> ptr) list \<Rightarrow> TypeRefID \<times> ptr \<Rightarrow> (TypeRefID \<times> ptr) list" where
  "insert_entry es e = (case find_entry es (fst e) of None \<Rightarrow> es @ [e] | Some v \<Rightarrow> es)"

text \<open>Modelled from the spec: the arena's addressing is missing with the allocator. The
  address of the node at position \<open>i\<close> of the arena.\<close>

definition node_address :: "nat \<Rightarrow> ptr" where
  "node_address i = of_nat (Suc i)"

text \<open>Modelled from the spec: reading a node of the missing arena. The node a pointer
  refers to; \<open>None\<close> for \<^verbatim>\<open>nullptr\<close> and for an address the allocator has not handed out.\<close>

definition deref :: "Allocator \<Rightarrow> ptr \<Rightarrow> TypeRef option" where
  "deref A p =
     (if p = nullptr \<or> length (Pool A) < unat p then None
      else Some (Pool A ! (unat p - 1)))"

text \<open>Modelled from the spec: \<^verbatim>\<open>makeTypeRef\<close> is a member of the missing allocator.
  \<^verbatim>\<open>makeTypeRef<TypeRefTy>(args...)\<close> constructs the node in the arena and returns its
  address. The address space is 64 bits wide; \<open>BadAlloc\<close> when it is used up.\<close>

definition makeTypeRef :: "Allocator \<Rightarrow> CreateArgs \<Rightarrow> error + (Allocator \<times> ptr)" where
  "makeTypeRef A args =
     (case construct args of
        Inl e \<Rightarrow> Inl e
      | Inr TR \<Rightarrow>
          if Suc (length (Pool A)) < 2 ^ 64
          then Inr (A\<lparr>Pool := Pool A @ [TR]\<rparr>, node_address (length (Pool A)))
          else Inl BadAlloc)"

text \<open>The macro \<^verbatim>\<open>FIND_OR_CREATE_TYPEREF(Allocator, TypeRefTy, ...)\<close>.\<close>

definition FIND_OR_CREATE_TYPEREF ::
  "bool \<Rightarrow> Allocator \<Rightarrow> CreateArgs \<Rightarrow> error + (Allocator \<times> ptr)" where
  "FIND_OR_CREATE_TYPEREF sc A args =
     (let I = Profile sc args
      in case find_entry (TypeRefs A (TypeRefTy args)) I of
           Some Entry \<Rightarrow> Inr (A, Entry)
         | None \<Rightarrow>
             (case makeTypeRef A args of
                Inl e \<Rightarrow> Inl e
              | Inr (A', TR) \<Rightarrow>
                  Inr (A'\<lparr>TypeRefs := (TypeRefs A')
                             (TypeRefTy args :=
                                insert_entry (TypeRefs A' (TypeRefTy args)) (I, TR))\<rparr>,
                       TR)))"

text \<open>\<^verbatim>\<open>OpaqueArchetypeTypeRef::create\<close>.\<close>

definition OpaqueArchetypeTypeRef_create ::
  "bool \<Rightarrow> Allocator \<Rightarrow> string \<Rightarrow> string \<Rightarrow> uint32_t \<Rightarrow> ptr list list
   \<Rightarrow> error + (Allocator \<times> ptr)" where
  "OpaqueArchetypeTypeRef_create sc A id' description ordinal arguments =
     FIND_OR_CREATE_TYPEREF sc A (OpaqueArchetypeArgs id' description ordinal arguments)"

text \<open>Allocator states that later \<^verbatim>\<open>create\<close> calls lead to.\<close>

inductive later :: "bool \<Rightarrow> Allocator \<Rightarrow> Allocator \<Rightarrow> bool" where
  later_refl: "later sc A A"
| later_step: "later sc A B \<Longrightarrow> FIND_OR_CREATE_TYPEREF sc B args = Inr (C, p) \<Longrightarrow> later sc A C"

text \<open>
  The invariant of the caches: the arena fits the address space, every pointer cached for
  a class is the address of a node of the arena whose kind is that class's, and no pointer
  is cached under two keys or in two caches.
\<close>

definition Allocator_inv :: "Allocator \<Rightarrow> bool" where
  "Allocator_inv A \<longleftrightarrow>
     length (Pool A) < 2 ^ 64
   \<and> (\<forall>K I p. find_entry (TypeRefs A K) I = Some p \<longrightarrow>
                 (\<exists>TR. deref A p = Some TR \<and> getKind TR = K))
   \<and> (\<forall>K K' I I' p. find_entry (TypeRefs A K) I = Some p \<longrightarrow>
                     find_entry (TypeRefs A K') I' = Some p \<longrightarrow> K = K' \<and> Equal I I')"

section \<open>The visitor\<close>

text \<open>
  Modelled from the spec: \<^verbatim>\<open>swift/Reflection/TypeRefs.def\<close> is missing. It is the list of
  \<^verbatim>\<open>TYPEREF(Id, Parent)\<close> entries from which both the enumeration (\<^verbatim>\<open>Id,\<close> per entry, so
  an enumerator's value is its position) and the \<^verbatim>\<open>case\<close> labels of
  \<^verbatim>\<open>TypeRefVisitor::visit\<close> are generated; the spec calls the enumeration closed and has one
  handler per kind.
\<close>

definition TYPEREF_entries :: "TypeRefKind list" where
  "TYPEREF_entries =
     [Builtin, Nominal, BoundGeneric, Tuple, OpaqueArchetype, Function, ProtocolComposition,
      Metatype, ExistentialMetatype, GenericTypeParameter, DependentMember, ForeignClass,
      ObjCClass, ObjCProtocol, Opaque, WeakStorage, UnownedStorage, UnmanagedStorage, SILBox]"

text \<open>The integer value of an enumerator: its position among the entries.\<close>

fun position :: "TypeRefKind list \<Rightarrow> TypeRefKind \<Rightarrow> int" where
  "position [] K = 0"
| "position (Id' # rest) K = (if K = Id' then 0 else 1 + position rest K)"

definition TypeRefKind_value :: "TypeRefKind \<Rightarrow> int" where
  "TypeRefKind_value K = position TYPEREF_entries K"

text \<open>
  The \<^verbatim>\<open>switch\<close> of \<^verbatim>\<open>visit\<close> as a function of the integer stored in the kind tag: one
  \<^verbatim>\<open>case TypeRefKind::Id\<close> per entry, each returning the result of the implementation's
  \<^verbatim>\<open>visit##Id##TypeRef\<close> on \<^verbatim>\<open>cast<Id##TypeRef>(typeRef)\<close> (\<^verbatim>\<open>cast\<close> asserts \<^verbatim>\<open>isa\<close>); falling
  out of the \<^verbatim>\<open>switch\<close> reaches \<^verbatim>\<open>swift_runtime_unreachable\<close>. The implementation class is
  the family \<open>Impl\<close> of its handlers, indexed by kind.
\<close>

fun visit_switch ::
  "TypeRefKind list \<Rightarrow> (TypeRefKind \<Rightarrow> TypeRef \<Rightarrow> 'args \<Rightarrow> 'ret) \<Rightarrow> int \<Rightarrow> TypeRef \<Rightarrow> 'args
   \<Rightarrow> error + 'ret" where
  "visit_switch [] Impl tag typeRef args = Inl Unreachable"
| "visit_switch (Id' # rest) Impl tag typeRef args =
     (if tag = TypeRefKind_value Id'
      then (if isa Id' typeRef then Inr (Impl Id' typeRef args) else Inl AssertionFailed)
      else visit_switch rest Impl tag typeRef args)"

definition visit ::
  "(TypeRefKind \<Rightarrow> TypeRef \<Rightarrow> 'args \<Rightarrow> 'ret) \<Rightarrow> TypeRef \<Rightarrow> 'args \<Rightarrow> error + 'ret" where
  "visit Impl typeRef args =
     visit_switch TYPEREF_entries Impl (TypeRefKind_value (getKind typeRef)) typeRef args"

section \<open>Substitution and unification\<close>

text \<open>\<^verbatim>\<open>using DepthAndIndex = std::pair<unsigned, unsigned>\<close> and
  \<^verbatim>\<open>using GenericArgumentMap = llvm::DenseMap<DepthAndIndex, const TypeRef *>\<close>.\<close>

type_synonym DepthAndIndex = "uint32_t \<times> uint32_t"
type_synonym GenericArgumentMap = "DepthAndIndex \<rightharpoonup> ptr"

text \<open>
  \<^verbatim>\<open>TypeRef::subst\<close> and \<^verbatim>\<open>TypeRef::deriveSubstitutions\<close> are declared in the header and
  defined in a source file that is missing. The definitions of this section follow the
  spec's section on the substitution and unification engine, over the arena of the
  allocator. Both functions walk a tree of unknown depth through pointers; the walk takes
  fuel, one unit per level, and \<open>OutOfFuel\<close> is the walk that has not returned.
\<close>

text \<open>
  Modelled from the spec: part of the missing bodies of \<^verbatim>\<open>subst\<close> and
  \<^verbatim>\<open>deriveSubstitutions\<close>. The children of a node are the node references among its
  fields, in field order (the parent of a nominal type first); a missing optional child
  is \<^verbatim>\<open>nullptr\<close>.
\<close>

fun children :: "TypeRefFields \<Rightarrow> ptr list" where
  "children (BuiltinFields n) = []"
| "children (NominalFields n p) = [p]"
| "children (BoundGenericFields n p gs) = p # gs"
| "children (TupleFields es ls) = es"
| "children (OpaqueArchetypeFields i d ord buf views) = buf"
| "children (FunctionFields ps r fl) = map getType ps @ [r]"
| "children (ProtocolCompositionFields ps s h) = ps @ [s]"
| "children (MetatypeFields t w) = [t]"
| "children (ExistentialMetatypeFields t) = [t]"
| "children (GenericTypeParameterFields d i) = []"
| "children (DependentMemberFields m b p) = [b]"
| "children (ForeignClassFields n) = []"
| "children (ObjCClassFields n) = []"
| "children (ObjCProtocolFields n) = []"
| "children OpaqueFields = []"
| "children (ReferenceStorageFields t) = [t]"
| "children (SILBoxFields t) = [t]"

text \<open>
  Modelled from the spec: part of the missing body of \<^verbatim>\<open>subst\<close>. ``Rebuilt with
  substituted children through the allocator'': the \<^verbatim>\<open>create\<close> arguments of a node of the
  same class and the same other fields as \<open>TR\<close>, with the children \<open>cs\<close> in place of its
  own. A child that \<open>cs\<close> is too short to supply stays as it is.
\<close>

definition first_or :: "ptr \<Rightarrow> ptr list \<Rightarrow> ptr" where
  "first_or p cs = (case cs of [] \<Rightarrow> p | c # rest \<Rightarrow> c)"

definition nth_or :: "ptr \<Rightarrow> ptr list \<Rightarrow> nat \<Rightarrow> ptr" where
  "nth_or p cs k = (if k < length cs then cs ! k else p)"

definition with_children :: "TypeRef \<Rightarrow> ptr list \<Rightarrow> CreateArgs" where
  "with_children TR cs =
     (case Fields TR of
        BuiltinFields n \<Rightarrow> BuiltinArgs n
      | NominalFields n p \<Rightarrow> NominalArgs n (first_or p cs)
      | BoundGenericFields n p gs \<Rightarrow> BoundGenericArgs n (tl cs) (first_or p cs)
      | TupleFields es ls \<Rightarrow> TupleArgs cs ls
      | OpaqueArchetypeFields i d ord buf views \<Rightarrow>
          OpaqueArchetypeArgs i d ord (map (ArrayRef_elems cs) views)
      | FunctionFields ps r fl \<Rightarrow>
          FunctionArgs (map (\<lambda>(P, t). P\<lparr>getType := t\<rparr>) (zip ps cs)) (nth_or r cs (length ps)) fl
      | ProtocolCompositionFields ps s h \<Rightarrow>
          ProtocolCompositionArgs (take (length ps) cs) (nth_or s cs (length ps)) h
      | MetatypeFields t w \<Rightarrow> MetatypeArgs (first_or t cs) w
      | ExistentialMetatypeFields t \<Rightarrow> ExistentialMetatypeArgs (first_or t cs)
      | GenericTypeParameterFields d i \<Rightarrow> GenericTypeParameterArgs d i
      | DependentMemberFields m b p \<Rightarrow> DependentMemberArgs m (first_or b cs) p
      | ForeignClassFields n \<Rightarrow> ForeignClassArgs n
      | ObjCClassFields n \<Rightarrow> ObjCClassArgs n
      | ObjCProtocolFields n \<Rightarrow> ObjCProtocolArgs n
      | OpaqueFields \<Rightarrow> OpaqueArgs
      | ReferenceStorageFields t \<Rightarrow>
          (case Kind TR of
             UnownedStorage \<Rightarrow> UnownedStorageArgs (first_or t cs)
           | UnmanagedStorage \<Rightarrow> UnmanagedStorageArgs (first_or t cs)
           | _ \<Rightarrow> WeakStorageArgs (first_or t cs))
      | SILBoxFields t \<Rightarrow> SILBoxArgs (first_or t cs))"

text \<open>Modelled from the spec: part of the missing body of \<^verbatim>\<open>subst\<close>. The binding that
  replaces a node: that of its coordinate, when the node is a generic type parameter
  whose coordinate is a key of the map.\<close>

definition bound_to :: "GenericArgumentMap \<Rightarrow> TypeRef \<Rightarrow> ptr option" where
  "bound_to Subs TR =
     (case Fields TR of GenericTypeParameterFields d i \<Rightarrow> Subs (d, i) | _ \<Rightarrow> None)"

text \<open>Modelled from the spec: part of the missing body of \<^verbatim>\<open>subst\<close>. The children of a
  node are substituted from first to last, each on the allocator the previous one left;
  \<^verbatim>\<open>nullptr\<close> stays \<^verbatim>\<open>nullptr\<close>.\<close>

fun subst_children ::
  "(Allocator \<Rightarrow> ptr \<Rightarrow> error + (Allocator \<times> ptr)) \<Rightarrow> Allocator \<Rightarrow> ptr list
   \<Rightarrow> error + (Allocator \<times> ptr list)" where
  "subst_children rec A [] = Inr (A, [])"
| "subst_children rec A (c # cs) =
     (case (if c = nullptr then Inr (A, nullptr) else rec A c) of
        Inl e \<Rightarrow> Inl e
      | Inr (A1, c') \<Rightarrow>
          (case subst_children rec A1 cs of
             Inl e \<Rightarrow> Inl e
           | Inr (A2, cs') \<Rightarrow> Inr (A2, c' # cs')))"

text \<open>Modelled from the spec: the body of \<^verbatim>\<open>TypeRef::subst\<close> is missing.
  \<^verbatim>\<open>T->subst(Builder, Subs)\<close>: a generic type parameter whose coordinate is a key of
  \<open>Subs\<close> is replaced by its binding; any other node is rebuilt, bottom-up, from its
  substituted children.\<close>

primrec subst ::
  "nat \<Rightarrow> bool \<Rightarrow> GenericArgumentMap \<Rightarrow> Allocator \<Rightarrow> ptr \<Rightarrow> error + (Allocator \<times> ptr)" where
  "subst 0 sc Subs Builder T = Inl OutOfFuel"
| "subst (Suc fuel) sc Subs Builder T =
     (case deref Builder T of
        None \<Rightarrow> Inl NullDereference
      | Some TR \<Rightarrow>
          (case bound_to Subs TR of
             Some Bound \<Rightarrow> Inr (Builder, Bound)
           | None \<Rightarrow>
               (case subst_children (subst fuel sc Subs) Builder (children (Fields TR)) of
                  Inl e \<Rightarrow> Inl e
                | Inr (Builder1, cs) \<Rightarrow>
                    FIND_OR_CREATE_TYPEREF sc Builder1 (with_children TR cs))))"

text \<open>
  Modelled from the spec: part of the missing body of \<^verbatim>\<open>deriveSubstitutions\<close>. ``The same
  variant kind and the same non-generic identifying fields (symbolic name, arity, label
  string, flags, etc.)'': two nodes have the same shape when they agree in
  kind and in every field once the children are blanked out. The description of an
  opaque archetype identifies nothing and is blanked out too.
\<close>

fun skeleton :: "TypeRefFields \<Rightarrow> TypeRefFields" where
  "skeleton (BuiltinFields n) = BuiltinFields n"
| "skeleton (NominalFields n p) = NominalFields n nullptr"
| "skeleton (BoundGenericFields n p gs) = BoundGenericFields n nullptr (map (\<lambda>g. nullptr) gs)"
| "skeleton (TupleFields es ls) = TupleFields (map (\<lambda>e. nullptr) es) ls"
| "skeleton (OpaqueArchetypeFields i d ord buf views) =
     OpaqueArchetypeFields i [] ord (map (\<lambda>b. nullptr) buf) views"
| "skeleton (FunctionFields ps r fl) =
     FunctionFields (map (\<lambda>P. P\<lparr>getType := nullptr\<rparr>) ps) nullptr fl"
| "skeleton (ProtocolCompositionFields ps s h) =
     ProtocolCompositionFields (map (\<lambda>p. nullptr) ps) nullptr h"
| "skeleton (MetatypeFields t w) = MetatypeFields nullptr w"
| "skeleton (ExistentialMetatypeFields t) = ExistentialMetatypeFields nullptr"
| "skeleton (GenericTypeParameterFields d i) = GenericTypeParameterFields d i"
| "skeleton (DependentMemberFields m b p) = DependentMemberFields m nullptr p"
| "skeleton (ForeignClassFields n) = ForeignClassFields n"
| "skeleton (ObjCClassFields n) = ObjCClassFields n"
| "skeleton (ObjCProtocolFields n) = ObjCProtocolFields n"
| "skeleton OpaqueFields = OpaqueFields"
| "skeleton (ReferenceStorageFields t) = ReferenceStorageFields nullptr"
| "skeleton (SILBoxFields t) = SILBoxFields nullptr"

definition same_shape :: "TypeRef \<Rightarrow> TypeRef \<Rightarrow> bool" where
  "same_shape Orig Subst \<longleftrightarrow>
     getKind Orig = getKind Subst \<and> skeleton (Fields Orig) = skeleton (Fields Subst)"

text \<open>
  Modelled from the spec: part of the missing body of \<^verbatim>\<open>deriveSubstitutions\<close>. ``Children
  are compared pairwise and recursively'': from first to last, each pair on
  the map the previous pair left, stopping at the first failure. Two missing children
  match; a missing child against a present one, or a child without a partner, is a
  mismatch.
\<close>

fun derive_children ::
  "(GenericArgumentMap \<Rightarrow> ptr \<Rightarrow> ptr \<Rightarrow> error + (bool \<times> GenericArgumentMap))
   \<Rightarrow> GenericArgumentMap \<Rightarrow> ptr list \<Rightarrow> ptr list \<Rightarrow> error + (bool \<times> GenericArgumentMap)" where
  "derive_children rec Subs [] [] = Inr (True, Subs)"
| "derive_children rec Subs (c # cs) (d # ds) =
     (if c = nullptr \<or> d = nullptr
      then (if c = d then derive_children rec Subs cs ds else Inr (False, Subs))
      else
        (case rec Subs c d of
           Inl e \<Rightarrow> Inl e
         | Inr (ok, Subs1) \<Rightarrow>
             if ok then derive_children rec Subs1 cs ds else Inr (False, Subs1)))"
| "derive_children rec Subs [] (d # ds) = Inr (False, Subs)"
| "derive_children rec Subs (c # cs) [] = Inr (False, Subs)"

text \<open>
  Modelled from the spec: the body of \<^verbatim>\<open>TypeRef::deriveSubstitutions\<close> is missing.
  \<^verbatim>\<open>deriveSubstitutions(Subs, OrigTR, SubstTR)\<close> gives the \<^verbatim>\<open>bool\<close> result and the map as
  the call leaves it. A generic type parameter of the pattern binds its coordinate to
  the node it meets, or, when the coordinate is bound, succeeds exactly if it is bound
  to that very node. A node without children must be the very node it meets. Any other
  node must meet a node of the same shape, and their children are walked in pairs.
\<close>

primrec deriveSubstitutions ::
  "nat \<Rightarrow> Allocator \<Rightarrow> GenericArgumentMap \<Rightarrow> ptr \<Rightarrow> ptr
   \<Rightarrow> error + (bool \<times> GenericArgumentMap)" where
  "deriveSubstitutions 0 A Subs OrigTR SubstTR = Inl OutOfFuel"
| "deriveSubstitutions (Suc fuel) A Subs OrigTR SubstTR =
     (case deref A OrigTR of
        None \<Rightarrow> Inl NullDereference
      | Some Orig \<Rightarrow>
          (case Fields Orig of
             GenericTypeParameterFields d i \<Rightarrow>
               (case Subs (d, i) of
                  None \<Rightarrow> Inr (True, Subs((d, i) \<mapsto> SubstTR))
                | Some Bound \<Rightarrow> Inr (Bound = SubstTR, Subs))
           | _ \<Rightarrow>
               (case deref A SubstTR of
                  None \<Rightarrow> Inl NullDereference
                | Some Subst \<Rightarrow>
                    if children (Fields Orig) = [] then Inr (OrigTR = SubstTR, Subs)
                    else if same_shape Orig Subst
                    then derive_children (deriveSubstitutions fuel A) Subs
                           (children (Fields Orig)) (children (Fields Subst))
                    else Inr (False, Subs))))"

text \<open>
  The pairs the lock-step walk forms: \<open>walk_binds A OrigTR SubstTR c B\<close> when, going
  down the same child positions in both trees, a generic type parameter of coordinate
  \<open>c\<close> in the pattern stands against the node \<open>B\<close>.
\<close>

inductive walk_binds :: "Allocator \<Rightarrow> ptr \<Rightarrow> ptr \<Rightarrow> DepthAndIndex \<Rightarrow> ptr \<Rightarrow> bool"
  for A :: Allocator where
  binds_here:
    "deref A OrigTR = Some Orig \<Longrightarrow> Fields Orig = GenericTypeParameterFields d i
     \<Longrightarrow> walk_binds A OrigTR SubstTR (d, i) SubstTR"
| binds_below:
    "deref A OrigTR = Some Orig \<Longrightarrow> deref A SubstTR = Some Subst
     \<Longrightarrow> k < length (children (Fields Orig)) \<Longrightarrow> k < length (children (Fields Subst))
     \<Longrightarrow> walk_binds A (children (Fields Orig) ! k) (children (Fields Subst) ! k) c B
     \<Longrightarrow> walk_binds A OrigTR SubstTR c B"

text \<open>The nodes reachable from a node through children.\<close>

inductive reachable :: "Allocator \<Rightarrow> ptr \<Rightarrow> ptr \<Rightarrow> bool"
  for A :: Allocator and T :: ptr where
  reachable_self: "reachable A T T"
| reachable_child:
    "reachable A T U \<Longrightarrow> deref A U = Some TR \<Longrightarrow> c \<in> set (children (Fields TR))
     \<Longrightarrow> reachable A T c"

definition no_GenericTypeParameter :: "Allocator \<Rightarrow> ptr \<Rightarrow> bool" where
  "no_GenericTypeParameter A T \<longleftrightarrow>
     (\<forall>U TR. reachable A T U \<longrightarrow> deref A U = Some TR \<longrightarrow> getKind TR \<noteq> GenericTypeParameter)"

text \<open>
  The invariants of an arena whose nodes were all created through \<^verbatim>\<open>create\<close> from
  arguments that point into it: every child of a node is \<^verbatim>\<open>nullptr\<close> or a node created
  before it; and every node is what its constructor builds from its own fields and is
  cached, in the cache of its kind, under the key of those arguments.
\<close>

definition children_earlier :: "Allocator \<Rightarrow> bool" where
  "children_earlier A \<longleftrightarrow>
     (\<forall>i<length (Pool A). \<forall>c\<in>set (children (Fields (Pool A ! i))). unat c \<le> i)"

definition own_args :: "TypeRef \<Rightarrow> CreateArgs" where
  "own_args TR = with_children TR (children (Fields TR))"

definition Arena_inv :: "bool \<Rightarrow> Allocator \<Rightarrow> bool" where
  "Arena_inv sc A \<longleftrightarrow>
     Allocator_inv A \<and> children_earlier A
   \<and> (\<forall>i<length (Pool A).
        construct (own_args (Pool A ! i)) = Inr (Pool A ! i)
      \<and> find_entry (TypeRefs A (getKind (Pool A ! i))) (Profile sc (own_args (Pool A ! i)))
          = Some (node_address i))"

section \<open>Auxiliary functions for the statements\<close>




text \<open>The views over consecutive slices of the given lengths, the first at position
  \<open>d\<close>.\<close>

fun views_from :: "nat \<Rightarrow> nat list \<Rightarrow> ArrayRef list" where
  "views_from d [] = []"
| "views_from d (n # ns) = \<lparr>Data = d, Length = n\<rparr> # views_from (d + n) ns"



















section \<open>The identity key\<close>

lemma addString_chunks_eq:
  "addString_chunks sc s chunks chunk i bits =
     (i + 4 * (chunks - chunk),
      bits @ map (\<lambda>k. chunk_entry sc s (i + 4 * k)) [0..<chunks - chunk])"
proof (induction sc s chunks chunk i bits rule: addString_chunks.induct)
  case (1 sc s chunks chunk i bits)
  show ?case
  proof (cases "chunk < chunks")
    case True
    then have d: "chunks - chunk = Suc (chunks - Suc chunk)" by simp
    have m: "map (\<lambda>k. chunk_entry sc s (i + 4 * k)) [0..<Suc (chunks - Suc chunk)] =
             chunk_entry sc s i # map (\<lambda>k. chunk_entry sc s (i + 4 + 4 * k)) [0..<chunks - Suc chunk]"
      by (simp add: upt_conv_Cons map_Suc_upt [symmetric] add.assoc del: upt_Suc)
    from True 1 show ?thesis
      by (simp add: addString_chunks.simps [of sc s chunks chunk i bits] d m del: upt_Suc)
  next
    case False
    then show ?thesis by (simp add: addString_chunks.simps [of sc s chunks chunk i bits])
  qed
qed

lemma addString_tail_eq:
  "addString_tail sc s i bits = bits @ map (\<lambda>j. char_to_uint32 sc (s ! j)) [i..<length s]"
proof (induction sc s i bits rule: addString_tail.induct)
  case (1 sc s i bits)
  show ?case
  proof (cases "i < length s")
    case True
    with 1 show ?thesis
      by (simp add: addString_tail.simps [of sc s i bits] upt_conv_Cons del: upt_Suc)
  next
    case False
    then show ?thesis by (simp add: addString_tail.simps [of sc s i bits])
  qed
qed

lemma addString_nonempty:
  "s \<noteq> [] \<Longrightarrow> Bits (addString sc s I) =
     Bits I @ map (\<lambda>k. chunk_entry sc s (4 * k)) [0..<length s div 4]
       @ map (\<lambda>j. char_to_uint32 sc (s ! j)) [4 * (length s div 4)..<length s]"
  by (simp add: addString_def addString_chunks_eq addString_tail_eq Let_def)

lemma uint64_halves: "(ucast (ucast x :: 32 word) :: 64 word) OR push_bit 32 (ucast (ucast (drop_bit 32 x :: 64 word) :: 32 word)) = (x :: 64 word)"
  by (rule bit_eqI) (auto simp: bit_simps)

lemma pack4:
  fixes b0 b1 b2 b3 :: "8 word"
  shows "(ucast b0 :: 32 word) + push_bit 8 (ucast b1) + push_bit 16 (ucast b2) + push_bit 24 (ucast b3)
       = ((ucast b0 OR push_bit 8 (ucast b1)) OR push_bit 16 (ucast b2)) OR push_bit 24 (ucast b3)"
proof -
  have 1: "(ucast b0 :: 32 word) + push_bit 8 (ucast b1) = ucast b0 OR push_bit 8 (ucast b1)"
    by (rule disjunctive_add_eq_or) (rule bit_eqI, auto simp: bit_simps dest: bit_imp_le_length)
  have 2: "((ucast b0 OR push_bit 8 (ucast b1)) :: 32 word) + push_bit 16 (ucast b2)
           = (ucast b0 OR push_bit 8 (ucast b1)) OR push_bit 16 (ucast b2)"
    by (rule disjunctive_add_eq_or) (rule bit_eqI, auto simp: bit_simps dest: bit_imp_le_length)
  have 3: "(((ucast b0 OR push_bit 8 (ucast b1)) OR push_bit 16 (ucast b2)) :: 32 word)
             + push_bit 24 (ucast b3)
           = ((ucast b0 OR push_bit 8 (ucast b1)) OR push_bit 16 (ucast b2)) OR push_bit 24 (ucast b3)"
    by (rule disjunctive_add_eq_or) (rule bit_eqI, auto simp: bit_simps dest: bit_imp_le_length)
  show ?thesis by (simp only: 1 2 3)
qed

lemma bytes_of_pack4:
  fixes b0 b1 b2 b3 :: "8 word"
  defines "w \<equiv> (((ucast b0 OR push_bit 8 (ucast b1)) OR push_bit 16 (ucast b2)) OR push_bit 24 (ucast b3) :: 32 word)"
  shows "ucast w = b0" "ucast (drop_bit 8 w) = b1" "ucast (drop_bit 16 w) = b2" "ucast (drop_bit 24 w) = b3"
  unfolding w_def by (rule bit_eqI, auto simp: bit_simps dest: bit_imp_le_length)+

lemma chunk_entry_bytes:
  assumes "\<not> sc \<or> (\<forall>k<4. of_char (s ! (i + k)) < (128 :: nat))"
  shows "ucast (chunk_entry sc s i) = (of_char (s ! i) :: 8 word)"
    "ucast (drop_bit 8 (chunk_entry sc s i)) = (of_char (s ! (i + 1)) :: 8 word)"
    "ucast (drop_bit 16 (chunk_entry sc s i)) = (of_char (s ! (i + 2)) :: 8 word)"
    "ucast (drop_bit 24 (chunk_entry sc s i)) = (of_char (s ! (i + 3)) :: 8 word)"
proof -
  have c: "char_to_uint32 sc (s ! (i + k)) = ucast (of_char (s ! (i + k)) :: 8 word)" if "k < 4" for k
  proof (cases sc)
    case False
    then show ?thesis by (simp add: char_to_uint32_def)
  next
    case True
    with assms that have "of_char (s ! (i + k)) < (128 :: nat)" by simp
    then have "\<not> bit (of_char (s ! (i + k)) :: nat) 7"
      by (simp add: bit_iff_odd)
    moreover have "(of_char (s ! (i + k)) :: 8 word) = of_nat (of_char (s ! (i + k)))"
      by (simp add: of_nat_of_char)
    ultimately have n7: "\<not> bit (of_char (s ! (i + k)) :: 8 word) 7"
      by (simp add: bit_simps)
    have hi: "n < 7" if "bit (of_char (s ! (i + k)) :: 8 word) n" for n
    proof -
      from that have "n < 8" by (auto dest: bit_imp_le_length)
      moreover from that n7 have "n \<noteq> 7" by auto
      ultimately show ?thesis by simp
    qed
    have "(scast (of_char (s ! (i + k)) :: 8 word) :: 32 word) = ucast (of_char (s ! (i + k)) :: 8 word)"
      by (rule bit_eqI) (auto simp: bit_simps min_def dest: hi)
    with True show ?thesis by (simp add: char_to_uint32_def)
  qed
  have e: "chunk_entry sc s i =
      ((ucast (of_char (s ! i) :: 8 word) OR push_bit 8 (ucast (of_char (s ! (i + 1)) :: 8 word)))
        OR push_bit 16 (ucast (of_char (s ! (i + 2)) :: 8 word)))
        OR push_bit 24 (ucast (of_char (s ! (i + 3)) :: 8 word))"
    using c [of 0] c [of 1] c [of 2] c [of 3] by (simp add: chunk_entry_def pack4)
  show "ucast (chunk_entry sc s i) = (of_char (s ! i) :: 8 word)"
    "ucast (drop_bit 8 (chunk_entry sc s i)) = (of_char (s ! (i + 1)) :: 8 word)"
    "ucast (drop_bit 16 (chunk_entry sc s i)) = (of_char (s ! (i + 2)) :: 8 word)"
    "ucast (drop_bit 24 (chunk_entry sc s i)) = (of_char (s ! (i + 3)) :: 8 word)"
    unfolding e by (rule bytes_of_pack4)+
qed

lemma Equal_eq: "Equal a b \<longleftrightarrow> Bits a = Bits b"
  by (auto simp: Equal_def vector_eq_def list.rel_eq)

lemma Equal_iff: "Equal a b \<longleftrightarrow> length (Bits a) = length (Bits b) \<and> (\<forall>i<length (Bits a). Bits a ! i = Bits b ! i)"
  by (simp add: Equal_eq list_eq_iff_nth_eq)





















































lemma char_to_uint32_byte:
  assumes "\<not> sc \<or> of_char c < (128 :: nat)"
  shows "char_to_uint32 sc c = ucast (of_char c :: 8 word)"
proof (cases sc)
  case False
  then show ?thesis by (simp add: char_to_uint32_def)
next
  case True
  with assms have "of_char c < (128 :: nat)" by simp
  then have "\<not> bit (of_char c :: nat) 7"
    by (simp add: bit_iff_odd)
  moreover have "(of_char c :: 8 word) = of_nat (of_char c)"
    by (simp add: of_nat_of_char)
  ultimately have n7: "\<not> bit (of_char c :: 8 word) 7"
    by (simp add: bit_simps)
  have hi: "n < 7" if "bit (of_char c :: 8 word) n" for n
  proof -
    from that have "n < 8" by (auto dest: bit_imp_le_length)
    moreover from that n7 have "n \<noteq> 7" by auto
    ultimately show ?thesis by simp
  qed
  have "(scast (of_char c :: 8 word) :: 32 word) = ucast (of_char c :: 8 word)"
    by (rule bit_eqI) (auto simp: bit_simps min_def dest: hi)
  with True show ?thesis by (simp add: char_to_uint32_def)
qed


text \<open>Outside the equal shapes and the plain keys the words of one argument can be read as
  those of another, so different arguments can give one key: a name and the same name
  followed by NUL characters, or an ordinal that equals the last character of a longer
  id.\<close>

lemma key_collisions:
  "Profile sc (BuiltinArgs [CHR ''a'']) =
     Profile sc (BuiltinArgs [CHR ''a'', CHR 0x00, CHR 0x00, CHR 0x00])"
  "Profile sc (OpaqueArchetypeArgs ''ab'' d 0 []) =
     Profile sc (OpaqueArchetypeArgs ''a'' d 0x62 [[]])"
  by (simp_all add: BuiltinTypeRef_Profile_def OpaqueArchetypeTypeRef_Profile_def
      TypeRefID_new_def addInteger_def addString_def addString_chunks.simps
      addString_tail.simps chunk_entry_def char_to_uint32_def)


section \<open>Labels and argument lists\<close>










lemma copy_argumentLists_fold:
  "fold (\<lambda>argList (argumentListLengths, buf).
             (argumentListLengths @ [of_nat (length argList)], buf @ argList)) ls (lens, buf)
   = (lens @ map (\<lambda>l. of_nat (length l)) ls, buf @ concat ls)"
  by (induction ls arbitrary: lens buf) auto

lemma publish_views_fold:
  "fold (\<lambda>len (data, views).
             (data + unat len, views @ [\<lparr>Data = data, Length = unat len\<rparr>])) lens (d, vs)
   = (d + sum_list (map unat lens), vs @ views_from d (map unat lens))"
  by (induction lens arbitrary: d vs) auto

lemma views_from_elems:
  "length pre = d \<Longrightarrow>
   map (ArrayRef_elems (pre @ concat ls @ post)) (views_from d (map length ls)) = ls"
proof (induction ls arbitrary: pre d)
  case Nil
  then show ?case by simp
next
  case (Cons l ls)
  have "map (ArrayRef_elems ((pre @ l) @ concat ls @ post)) (views_from (d + length l) (map length ls)) = ls"
    by (rule Cons.IH) (simp add: Cons.prems)
  moreover from Cons.prems
  have "ArrayRef_elems (pre @ concat (l # ls) @ post) \<lparr>Data = d, Length = length l\<rparr> = l"
    by (simp add: ArrayRef_elems_def)
  ultimately show ?case by simp
qed

lemma trunc_sum:
  "sum_list (map (\<lambda>l. unat (of_nat (length l) :: 32 word)) ls) = length (concat ls) \<Longrightarrow>
   map (\<lambda>l. unat (of_nat (length l) :: 32 word)) ls = map length ls"
proof (induction ls)
  case Nil
  then show ?case by simp
next
  case (Cons l ls)
  have le: "\<And>l::'a list. unat (of_nat (length l) :: 32 word) \<le> length l"
    by (simp add: unat_of_nat)
  have les: "sum_list (map (\<lambda>l. unat (of_nat (length l) :: 32 word)) ls) \<le> length (concat ls)"
    by (induction ls) (auto simp: unat_of_nat intro: add_mono)
  from Cons.prems le [of l] les
  have "unat (of_nat (length l) :: 32 word) = length l"
     and "sum_list (map (\<lambda>l. unat (of_nat (length l) :: 32 word)) ls) = length (concat ls)"
    by simp_all
  with Cons.IH show ?case by simp
qed

section \<open>Claims about keys, labels and argument lists\<close>

text \<open>
  Claim C6 as stated fails where \<^verbatim>\<open>char\<close> is signed. The cast to \<^verbatim>\<open>uint32_t\<close> sign-extends
  a character from \<^verbatim>\<open>0x80\<close> up, so the group \<^verbatim>\<open>FF 61 62 63\<close> gives the word \<^verbatim>\<open>0x636260FF\<close>,
  whose second byte is \<^verbatim>\<open>0x60\<close> and not the character \<^verbatim>\<open>0x61\<close>, and the single character
  \<^verbatim>\<open>0x80\<close> gives the word \<^verbatim>\<open>0xFFFFFF80\<close>, which is not that byte.
\<close>

theorem TypeRefID_word_sequence_counterexample:
  "Bits (addString True [CHR 0xFF, CHR 0x61, CHR 0x62, CHR 0x63] TypeRefID_new) = [0x636260FF]
   \<and> (ucast (drop_bit 8 (0x636260FF :: uint32_t)) :: 8 word) \<noteq> of_char (CHR 0x61)
   \<and> Bits (addString True [CHR 0x80] TypeRefID_new) = [0xFFFFFF80]
   \<and> (0xFFFFFF80 :: uint32_t) \<noteq> ucast (of_char (CHR 0x80) :: 8 word)"
  by (simp add: TypeRefID_new_def addString_def
      addString_chunks.simps addString_tail.simps chunk_entry_def char_to_uint32_def)


text \<open>
  Claim C6, amended. A \<^verbatim>\<open>TypeRefID\<close> is a sequence of 32-bit words to which every \<^verbatim>\<open>add\<close> call
  appends, so the words stand in argument order: a 64-bit integer appends its low and
  then its high half (the two halves give the integer back), a 32-bit integer and a
  pointer append their words, the empty string appends the single word 0, and a non-empty
  string appends one word per full group of four characters (the sum the source
  computes, \<open>chunk_entry\<close>) followed by one word per remaining character. \<^verbatim>\<open>Equal\<close>
  holds exactly when the two sequences have the same length and agree at every index.
  Where \<^verbatim>\<open>char\<close> is unsigned, or the characters are below \<^verbatim>\<open>0x80\<close>, the four bytes of a
  group's word are the four characters, the first in the lowest byte, and the word of a
  remaining character is that character.
\<close>

theorem TypeRefID_word_sequence:
  "Bits (addInteger64 x I) = Bits I @ [ucast x, ucast (drop_bit 32 x)]
   \<and> (ucast (ucast x :: uint32_t) :: uint64_t)
       OR push_bit 32 (ucast (ucast (drop_bit 32 x) :: uint32_t)) = x
   \<and> Bits (addInteger w I) = Bits I @ [w]
   \<and> Bits (addPointer p I) = Bits I @ [ucast p, ucast (drop_bit 32 p)]
   \<and> Bits (addString sc [] I) = Bits I @ [0]
   \<and> (s \<noteq> [] \<longrightarrow>
        Bits (addString sc s I) =
          Bits I @ map (\<lambda>k. chunk_entry sc s (4 * k)) [0..<length s div 4]
                 @ map (\<lambda>j. char_to_uint32 sc (s ! j)) [4 * (length s div 4)..<length s])
   \<and> (Equal a b \<longleftrightarrow>
        length (Bits a) = length (Bits b) \<and> (\<forall>i<length (Bits a). Bits a ! i = Bits b ! i))
   \<and> (\<not> sc \<or> (\<forall>k<4. of_char (s ! (j + k)) < (128 :: nat)) \<longrightarrow>
          ucast (chunk_entry sc s j) = (of_char (s ! j) :: 8 word)
        \<and> ucast (drop_bit 8 (chunk_entry sc s j)) = (of_char (s ! (j + 1)) :: 8 word)
        \<and> ucast (drop_bit 16 (chunk_entry sc s j)) = (of_char (s ! (j + 2)) :: 8 word)
        \<and> ucast (drop_bit 24 (chunk_entry sc s j)) = (of_char (s ! (j + 3)) :: 8 word))
   \<and> (\<not> sc \<or> of_char c < (128 :: nat) \<longrightarrow>
          char_to_uint32 sc c = ucast (of_char c :: 8 word))"
proof -
  have "(ucast (ucast x :: uint32_t) :: uint64_t)
       OR push_bit 32 (ucast (ucast (drop_bit 32 x) :: uint32_t)) = x"
    by (rule uint64_halves)
  moreover have "s \<noteq> [] \<longrightarrow>
        Bits (addString sc s I) =
          Bits I @ map (\<lambda>k. chunk_entry sc s (4 * k)) [0..<length s div 4]
                 @ map (\<lambda>j. char_to_uint32 sc (s ! j)) [4 * (length s div 4)..<length s]"
    by (simp add: addString_nonempty)
  moreover have "Bits (addString sc [] I) = Bits I @ [0]"
    by (simp add: addString_def)
  moreover note Equal_iff [of a b]
  moreover have "\<not> sc \<or> (\<forall>k<4. of_char (s ! (j + k)) < (128 :: nat)) \<longrightarrow>
          ucast (chunk_entry sc s j) = (of_char (s ! j) :: 8 word)
        \<and> ucast (drop_bit 8 (chunk_entry sc s j)) = (of_char (s ! (j + 1)) :: 8 word)
        \<and> ucast (drop_bit 16 (chunk_entry sc s j)) = (of_char (s ! (j + 2)) :: 8 word)
        \<and> ucast (drop_bit 24 (chunk_entry sc s j)) = (of_char (s ! (j + 3)) :: 8 word)"
    using chunk_entry_bytes [of sc s j] by blast
  moreover have "\<not> sc \<or> of_char c < (128 :: nat) \<longrightarrow>
          char_to_uint32 sc c = ucast (of_char c :: 8 word)"
    using char_to_uint32_byte [of sc c] by blast
  moreover have "Bits (addInteger64 x I) = Bits I @ [ucast x, ucast (drop_bit 32 x)]"
    "Bits (addInteger w I) = Bits I @ [w]"
    "Bits (addPointer p I) = Bits I @ [ucast p, ucast (drop_bit 32 p)]"
    by (simp_all add: addInteger64_def addInteger_def addPointer_def)
  ultimately show ?thesis by blast
qed

theorem TypeRefID_word_sequence_witness:
  "Bits (addString True ''abcde'' (addInteger64 0x100000002 TypeRefID_new)) = [2, 1, 0x64636261, 0x65]
   \<and> Bits (addString True '''' TypeRefID_new) = [0]
   \<and> Equal (addInteger 1 (addInteger 2 TypeRefID_new)) (addInteger 1 (addInteger 2 TypeRefID_new))
   \<and> \<not> Equal (addInteger 1 (addInteger 2 TypeRefID_new)) (addInteger 2 (addInteger 1 TypeRefID_new))"
  using TypeRefID_word_sequence [of "0x100000002" TypeRefID_new 0 0 True "''abcde''"
      "addInteger 1 (addInteger 2 TypeRefID_new)" "addInteger 1 (addInteger 2 TypeRefID_new)"]
    TypeRefID_word_sequence [of 0 TypeRefID_new 0 0 True "''''"
      "addInteger 1 (addInteger 2 TypeRefID_new)" "addInteger 2 (addInteger 1 TypeRefID_new)"]
  apply (simp add: TypeRefID_new_def addInteger_def addInteger64_def addString_def
      addString_chunks.simps addString_tail.simps chunk_entry_def char_to_uint32_def
      Equal_def vector_eq_def)
  done

text \<open>
  Claim C2 as stated fails: with three elements and the label string \<^verbatim>\<open>"x y"\<close> the
  result is not \<^verbatim>\<open>"x", "y", ""\<close>.
\<close>

theorem getLabels_x_y_counterexample:
  "getLabels [1, 2, 3] ''x y'' \<noteq> Some [''x'', ''y'', '''']"
  by (simp add: getLabels_def getLabels_split.simps string_find.simps getLabels_pad.simps)

text \<open>
  Claim C2, amended. For a tuple of three elements and the label string \<^verbatim>\<open>"x y"\<close>,
  \<^verbatim>\<open>getLabels\<close> returns the three labels \<^verbatim>\<open>"x"\<close>, \<^verbatim>\<open>""\<close>, \<^verbatim>\<open>""\<close>: the segment \<^verbatim>\<open>"y"\<close> has no
  terminating space and is not returned. With the label string \<^verbatim>\<open>"x y "\<close>, in which every
  label is followed by a space, it returns \<^verbatim>\<open>"x"\<close>, \<^verbatim>\<open>"y"\<close>, \<^verbatim>\<open>""\<close>.
\<close>

theorem getLabels_x_y:
  "getLabels [e1, e2, e3] ''x y'' = Some [''x'', '''', '''']
   \<and> getLabels [e1, e2, e3] ''x y '' = Some [''x'', ''y'', '''']"
  by (simp add: getLabels_def getLabels_split.simps string_find.simps getLabels_pad.simps)



text \<open>
  Claim C5. Constructing an \<^verbatim>\<open>OpaqueArchetypeTypeRef\<close> from argument lists succeeds when
  every list's length fits \<^verbatim>\<open>unsigned\<close>; whenever it succeeds, \<^verbatim>\<open>getArgumentLists\<close> holds
  one view per input list, the \<open>k\<close>-th of the length of the \<open>k\<close>-th list and denoting
  that list, the views' concatenation is the flattened input, and the views are
  consecutive slices, starting at position 0, of the node's own \<^verbatim>\<open>AllArgumentsBuf\<close>, which
  holds a copy of the flattened input.
\<close>

theorem OpaqueArchetype_argument_views:
  "((\<forall>l\<in>set argumentLists. length l < 2 ^ 32) \<longrightarrow>
      (\<exists>TR. OpaqueArchetypeTypeRef i d ord argumentLists = Inr TR))
   \<and> (\<forall>TR. OpaqueArchetypeTypeRef i d ord argumentLists = Inr TR \<longrightarrow>
        length (getArgumentLists TR) = length argumentLists
      \<and> (\<forall>k<length argumentLists.
            Length (getArgumentLists TR ! k) = length (argumentLists ! k))
      \<and> map (ArrayRef_elems (AllArgumentsBuf (Fields TR))) (getArgumentLists TR) = argumentLists
      \<and> concat (map (ArrayRef_elems (AllArgumentsBuf (Fields TR))) (getArgumentLists TR))
          = concat argumentLists
      \<and> AllArgumentsBuf (Fields TR) = concat argumentLists
      \<and> getArgumentLists TR = views_from 0 (map length argumentLists))"
proof -
  let ?lens = "map (\<lambda>l. of_nat (length l) :: uint32_t) argumentLists"
  let ?ulens = "map (\<lambda>l. unat (of_nat (length l) :: uint32_t)) argumentLists"
  have c: "copy_argumentLists argumentLists = (?lens, concat argumentLists)"
    using copy_argumentLists_fold [of argumentLists "[]" "[]"]
    by (simp add: copy_argumentLists_def)
  have p: "publish_views ?lens = (sum_list ?ulens, views_from 0 ?ulens)"
    using publish_views_fold [of ?lens 0 "[]"]
    by (simp add: publish_views_def comp_def)
  have ctor: "OpaqueArchetypeTypeRef i d ord argumentLists =
      (if sum_list ?ulens = length (concat argumentLists)
       then Inr \<lparr>Kind = OpaqueArchetype,
                 Fields = OpaqueArchetypeFields i d ord (concat argumentLists) (views_from 0 ?ulens)\<rparr>
       else Inl AssertionFailed)"
    by (simp add: OpaqueArchetypeTypeRef_def c p)
  have total: "(\<forall>l\<in>set argumentLists. length l < 2 ^ 32) \<longrightarrow>
      (\<exists>TR. OpaqueArchetypeTypeRef i d ord argumentLists = Inr TR)"
  proof
    assume "\<forall>l\<in>set argumentLists. length l < 2 ^ 32"
    then have "?ulens = map length argumentLists" by (simp add: unat_of_nat)
    then have "sum_list ?ulens = length (concat argumentLists)"
      by (simp only: length_concat)
    with ctor show "\<exists>TR. OpaqueArchetypeTypeRef i d ord argumentLists = Inr TR" by simp
  qed
  have views: "\<forall>TR. OpaqueArchetypeTypeRef i d ord argumentLists = Inr TR \<longrightarrow>
        length (getArgumentLists TR) = length argumentLists
      \<and> (\<forall>k<length argumentLists.
            Length (getArgumentLists TR ! k) = length (argumentLists ! k))
      \<and> map (ArrayRef_elems (AllArgumentsBuf (Fields TR))) (getArgumentLists TR) = argumentLists
      \<and> concat (map (ArrayRef_elems (AllArgumentsBuf (Fields TR))) (getArgumentLists TR))
          = concat argumentLists
      \<and> AllArgumentsBuf (Fields TR) = concat argumentLists
      \<and> getArgumentLists TR = views_from 0 (map length argumentLists)"
  proof (intro allI impI)
    fix TR
    assume ok: "OpaqueArchetypeTypeRef i d ord argumentLists = Inr TR"
    with ctor have sum: "sum_list ?ulens = length (concat argumentLists)"
      by (simp split: if_splits)
    then have u: "?ulens = map length argumentLists" by (rule trunc_sum)
    from ok ctor sum have "TR = \<lparr>Kind = OpaqueArchetype,
        Fields = OpaqueArchetypeFields i d ord (concat argumentLists) (views_from 0 ?ulens)\<rparr>"
      by simp
    then have TR: "TR = \<lparr>Kind = OpaqueArchetype,
        Fields = OpaqueArchetypeFields i d ord (concat argumentLists)
                   (views_from 0 (map length argumentLists))\<rparr>"
      by (simp only: u)
    have e: "map (ArrayRef_elems (concat argumentLists)) (views_from 0 (map length argumentLists))
             = argumentLists"
      using views_from_elems [of "[]" 0 argumentLists "[]"] by simp
    have len: "length (views_from 0 (map length argumentLists)) = length argumentLists"
      using arg_cong [OF e, of length] by simp
    have nth: "\<forall>k<length argumentLists.
        Length (views_from 0 (map length argumentLists) ! k) = length (argumentLists ! k)"
    proof (intro allI impI)
      fix k assume k: "k < length argumentLists"
      have "\<And>d. k < length ls \<Longrightarrow> Length (views_from d (map length ls) ! k) = length (ls ! k)"
        for ls :: "ptr list list"
        by (induction ls arbitrary: k) (auto simp: nth_Cons split: nat.splits)
      with k show "Length (views_from 0 (map length argumentLists) ! k) = length (argumentLists ! k)"
        by simp
    qed
    from TR e len nth show "length (getArgumentLists TR) = length argumentLists
      \<and> (\<forall>k<length argumentLists.
            Length (getArgumentLists TR ! k) = length (argumentLists ! k))
      \<and> map (ArrayRef_elems (AllArgumentsBuf (Fields TR))) (getArgumentLists TR) = argumentLists
      \<and> concat (map (ArrayRef_elems (AllArgumentsBuf (Fields TR))) (getArgumentLists TR))
          = concat argumentLists
      \<and> AllArgumentsBuf (Fields TR) = concat argumentLists
      \<and> getArgumentLists TR = views_from 0 (map length argumentLists)"
      by (simp add: getArgumentLists_def)
  qed
  from total views show ?thesis by blast
qed

theorem OpaqueArchetype_argument_views_witness:
  "length [1, 2 :: ptr] < 2 ^ 32 \<and> length [3 :: ptr] < 2 ^ 32
   \<and> (\<exists>TR. OpaqueArchetypeTypeRef ''id'' ''some T'' 0 [[1, 2], [3]] = Inr TR
        \<and> map Length (getArgumentLists TR) = [2, 1]
        \<and> map (ArrayRef_elems (AllArgumentsBuf (Fields TR))) (getArgumentLists TR)
            = [[1, 2], [3]]
        \<and> AllArgumentsBuf (Fields TR) = [1, 2, 3])"
proof -
  have h: "\<forall>l\<in>set [[1, 2], [3 :: ptr]]. length l < 2 ^ 32" by simp
  from OpaqueArchetype_argument_views [of "[[1, 2], [3]]" "''id''" "''some T''" 0] h
  obtain TR where TR: "OpaqueArchetypeTypeRef ''id'' ''some T'' 0 [[1, 2], [3]] = Inr TR"
    by blast
  with OpaqueArchetype_argument_views [of "[[1, 2], [3]]" "''id''" "''some T''" 0]
  have "getArgumentLists TR = views_from 0 (map length [[1, 2], [3 :: ptr]])"
    and "map (ArrayRef_elems (AllArgumentsBuf (Fields TR))) (getArgumentLists TR)
            = [[1, 2], [3]]"
    and "AllArgumentsBuf (Fields TR) = concat [[1, 2], [3]]"
    by blast+
  with TR have "OpaqueArchetypeTypeRef ''id'' ''some T'' 0 [[1, 2], [3]] = Inr TR
        \<and> map Length (getArgumentLists TR) = [2, 1]
        \<and> map (ArrayRef_elems (AllArgumentsBuf (Fields TR))) (getArgumentLists TR)
            = [[1, 2], [3]]
        \<and> AllArgumentsBuf (Fields TR) = [1, 2, 3]"
    by simp
  then have "\<exists>TR. OpaqueArchetypeTypeRef ''id'' ''some T'' 0 [[1, 2], [3]] = Inr TR
        \<and> map Length (getArgumentLists TR) = [2, 1]
        \<and> map (ArrayRef_elems (AllArgumentsBuf (Fields TR))) (getArgumentLists TR)
            = [[1, 2], [3]]
        \<and> AllArgumentsBuf (Fields TR) = [1, 2, 3]"
    by (rule exI)
  then show ?thesis by simp
qed

section \<open>The caches of the allocator\<close>

lemma Equal_refl [simp]: "Equal a a"
  by (simp add: Equal_eq)

lemma Equal_sym: "Equal a b \<Longrightarrow> Equal b a"
  by (simp add: Equal_eq)

lemma Equal_trans: "Equal a b \<Longrightarrow> Equal b c \<Longrightarrow> Equal a c"
  by (simp add: Equal_eq)


lemma find_entry_append:
  "find_entry (es @ [(k, v)]) I =
     (case find_entry es I of Some x \<Rightarrow> Some x | None \<Rightarrow> if Equal k I then Some v else None)"
  by (induction es) auto

lemma unat_node_address:
  "Suc n < 2 ^ 64 \<Longrightarrow> unat (node_address n) = Suc n"
  unfolding node_address_def by (simp only: unat_of_nat) simp

lemma deref_Some:
  "deref A p = Some TR \<longleftrightarrow>
     0 < unat p \<and> unat p \<le> length (Pool A) \<and> TR = Pool A ! (unat p - 1)"
  by (auto simp: deref_def nullptr_def unat_gt_0)

lemma FIND_OR_CREATE_cases:
  assumes "FIND_OR_CREATE_TYPEREF sc A args = Inr (A', p)"
  obtains (hit) "find_entry (TypeRefs A (TypeRefTy args)) (Profile sc args) = Some p" "A' = A"
  | (miss) TR where "find_entry (TypeRefs A (TypeRefTy args)) (Profile sc args) = None"
      "construct args = Inr TR" "Suc (length (Pool A)) < 2 ^ 64"
      "p = node_address (length (Pool A))"
      "A' = \<lparr>Pool = Pool A @ [TR],
             TypeRefs = (TypeRefs A)(TypeRefTy args :=
               TypeRefs A (TypeRefTy args) @ [(Profile sc args, p)])\<rparr>"
proof (cases "find_entry (TypeRefs A (TypeRefTy args)) (Profile sc args)")
  case (Some q)
  with assms have "p = q" "A' = A"
    by (simp_all add: FIND_OR_CREATE_TYPEREF_def)
  with Some hit show ?thesis by simp
next
  case None
  with assms obtain TR where c: "construct args = Inr TR"
    by (cases "construct args") (simp_all add: FIND_OR_CREATE_TYPEREF_def makeTypeRef_def)
  with assms None have b: "Suc (length (Pool A)) < 2 ^ 64"
    by (cases "Suc (length (Pool A)) < 2 ^ 64")
       (simp_all add: FIND_OR_CREATE_TYPEREF_def makeTypeRef_def)
  with assms None c have "p = node_address (length (Pool A))"
      "A' = \<lparr>Pool = Pool A @ [TR],
             TypeRefs = (TypeRefs A)(TypeRefTy args :=
               TypeRefs A (TypeRefTy args) @ [(Profile sc args, p)])\<rparr>"
    by (auto simp: FIND_OR_CREATE_TYPEREF_def makeTypeRef_def insert_entry_def)
  with None c b miss show ?thesis by blast
qed

lemma FIND_OR_CREATE_cached:
  assumes "FIND_OR_CREATE_TYPEREF sc A args = Inr (A', p)"
  shows "find_entry (TypeRefs A' (TypeRefTy args)) (Profile sc args) = Some p"
  using assms
  by (cases rule: FIND_OR_CREATE_cases) (simp_all add: find_entry_append)

lemma FIND_OR_CREATE_keeps_entries:
  assumes "FIND_OR_CREATE_TYPEREF sc A args = Inr (A', p)"
    and "find_entry (TypeRefs A K) I = Some q"
  shows "find_entry (TypeRefs A' K) I = Some q"
  using assms
  by (cases rule: FIND_OR_CREATE_cases) (auto simp: find_entry_append)

lemma FIND_OR_CREATE_keeps_nodes:
  assumes "FIND_OR_CREATE_TYPEREF sc A args = Inr (A', p)"
    and "deref A q = Some TR"
  shows "deref A' q = Some TR"
  using assms
  by (cases rule: FIND_OR_CREATE_cases)
     (auto simp: deref_Some nth_append)

lemma getKind_construct:
  "construct args = Inr TR \<Longrightarrow> getKind TR = TypeRefTy args"
  by (cases args)
     (auto simp: getKind_def BuiltinTypeRef_def NominalTypeRef_def BoundGenericTypeRef_def
        TupleTypeRef_def OpaqueArchetypeTypeRef_def FunctionTypeRef_def
        ProtocolCompositionTypeRef_def MetatypeTypeRef_def ExistentialMetatypeTypeRef_def
        GenericTypeParameterTypeRef_def DependentMemberTypeRef_def ForeignClassTypeRef_def
        ObjCClassTypeRef_def ObjCProtocolTypeRef_def OpaqueTypeRef_def
        ReferenceStorageTypeRef_def WeakStorageTypeRef_def UnownedStorageTypeRef_def
        UnmanagedStorageTypeRef_def SILBoxTypeRef_def
      split: prod.splits if_splits)

lemma FIND_OR_CREATE_inv:
  assumes c: "FIND_OR_CREATE_TYPEREF sc A args = Inr (A', p)"
    and inv: "Allocator_inv A"
  shows "Allocator_inv A'"
  using c
proof (cases rule: FIND_OR_CREATE_cases)
  case hit
  with inv show ?thesis by simp
next
  case (miss TR)
  let ?K = "TypeRefTy args" and ?I = "Profile sc args"
  from miss have up: "unat p = Suc (length (Pool A))" by (simp add: unat_node_address)
  with miss have new: "deref A' p = Some TR" by (simp add: deref_Some)
  from miss have kind: "getKind TR = ?K" by (simp add: getKind_construct)
  have old: "\<exists>TR. deref A p' = Some TR \<and> getKind TR = K"
    if "find_entry (TypeRefs A K) I = Some p'" for K I p'
    using inv that unfolding Allocator_inv_def by blast
  have inj: "K = K' \<and> Equal I I'"
    if "find_entry (TypeRefs A K) I = Some p'" "find_entry (TypeRefs A K') I' = Some p'"
    for K K' I I' p'
    using inv that unfolding Allocator_inv_def by blast
  have look: "find_entry (TypeRefs A' K) I = Some p' \<Longrightarrow>
      find_entry (TypeRefs A K) I = Some p' \<or> (K = ?K \<and> Equal ?I I \<and> p' = p)" for K I p'
    using miss by (auto simp: find_entry_append split: option.splits if_splits)
  have fresh: "find_entry (TypeRefs A K) I \<noteq> Some p" for K I
    using old [of K I p] up by (auto simp: deref_Some)
  show ?thesis unfolding Allocator_inv_def
  proof (intro conjI allI impI)
    from miss show "length (Pool A') < 2 ^ 64" by simp
  next
    fix K I p' assume "find_entry (TypeRefs A' K) I = Some p'"
    from look [OF this] show "\<exists>TR. deref A' p' = Some TR \<and> getKind TR = K"
    proof
      assume "find_entry (TypeRefs A K) I = Some p'"
      from old [OF this] obtain TR' where "deref A p' = Some TR'" "getKind TR' = K" by blast
      with FIND_OR_CREATE_keeps_nodes [OF c] show ?thesis by blast
    next
      assume "K = ?K \<and> Equal ?I I \<and> p' = p"
      with new kind show ?thesis by simp
    qed
  next
    fix K K' I I' p'
    assume a: "find_entry (TypeRefs A' K) I = Some p'" and b: "find_entry (TypeRefs A' K') I' = Some p'"
    from look [OF a] look [OF b] show "K = K'"
      using inj fresh by blast
  next
    fix K K' I I' p'
    assume a: "find_entry (TypeRefs A' K) I = Some p'" and b: "find_entry (TypeRefs A' K') I' = Some p'"
    from look [OF a] look [OF b] show "Equal I I'"
      using inj fresh Equal_sym Equal_trans by blast
  qed
qed

lemma later_keeps_entries:
  "later sc A B \<Longrightarrow> find_entry (TypeRefs A K) I = Some q \<Longrightarrow> find_entry (TypeRefs B K) I = Some q"
  by (induction rule: later.induct) (auto intro: FIND_OR_CREATE_keeps_entries)

lemma later_keeps_nodes:
  "later sc A B \<Longrightarrow> deref A q = Some TR \<Longrightarrow> deref B q = Some TR"
  by (induction rule: later.induct) (auto intro: FIND_OR_CREATE_keeps_nodes)


lemma Allocator_new_inv: "Allocator_inv Allocator_new"
  by (simp add: Allocator_inv_def Allocator_new_def)


lemma OpaqueArchetypeTypeRef_Description:
  "OpaqueArchetypeTypeRef i d ord as = Inr TR \<Longrightarrow>
     getDescription TR = d \<and> getID TR = i \<and> getOrdinal TR = ord"
  by (auto simp: OpaqueArchetypeTypeRef_def getDescription_def getID_def getOrdinal_def
           split: prod.splits if_splits)


lemmas classof_defs =
  BuiltinTypeRef_classof_def NominalTypeRef_classof_def BoundGenericTypeRef_classof_def
  TupleTypeRef_classof_def OpaqueArchetypeTypeRef_classof_def FunctionTypeRef_classof_def
  ProtocolCompositionTypeRef_classof_def MetatypeTypeRef_classof_def
  ExistentialMetatypeTypeRef_classof_def GenericTypeParameterTypeRef_classof_def
  DependentMemberTypeRef_classof_def ForeignClassTypeRef_classof_def ObjCClassTypeRef_classof_def
  ObjCProtocolTypeRef_classof_def OpaqueTypeRef_classof_def WeakStorageTypeRef_classof_def
  UnownedStorageTypeRef_classof_def UnmanagedStorageTypeRef_classof_def SILBoxTypeRef_classof_def

lemma isa_iff: "isa K TR \<longleftrightarrow> getKind TR = K"
  by (cases K) (simp_all add: classof_defs)


lemma position_inj:
  "K \<in> set ks \<Longrightarrow> K' \<in> set ks \<Longrightarrow> position ks K = position ks K' \<Longrightarrow> K = K'"
proof (induction ks)
  case Nil
  then show ?case by simp
next
  case (Cons a ks)
  have nn: "0 \<le> position ks x" for x by (induction ks) auto
  from Cons nn [of K] nn [of K'] show ?case by (auto split: if_splits)
qed

lemma all_kinds: "K \<in> set TYPEREF_entries"
  by (cases K) (simp_all add: TYPEREF_entries_def)

lemma TypeRefKind_value_inj: "TypeRefKind_value K = TypeRefKind_value K' \<Longrightarrow> K = K'"
  unfolding TypeRefKind_value_def using position_inj all_kinds by blast

lemma visit_switch_found:
  "K \<in> set ks \<Longrightarrow> isa K typeRef \<Longrightarrow>
   visit_switch ks Impl (TypeRefKind_value K) typeRef args = Inr (Impl K typeRef args)"
  by (induction ks) (auto dest: TypeRefKind_value_inj)

lemma visit_switch_Unreachable:
  "visit_switch ks Impl tag typeRef args = Inl Unreachable \<longleftrightarrow> tag \<notin> TypeRefKind_value ` set ks"
  by (induction ks) auto


section \<open>Claims about uniquing, kinds and dispatch\<close>

lemmas eval_defs =
  FIND_OR_CREATE_TYPEREF_def makeTypeRef_def insert_entry_def Allocator_new_def node_address_def
  BuiltinTypeRef_Profile_def NominalTypeTrait_Profile_def OpaqueArchetypeTypeRef_Profile_def
  TupleTypeRef_Profile_def GenericTypeParameterTypeRef_Profile_def
  BuiltinTypeRef_def NominalTypeRef_def TupleTypeRef_def GenericTypeParameterTypeRef_def
  OpaqueArchetypeTypeRef_def copy_argumentLists_def publish_views_def
  TypeRefID_new_def addInteger_def addPointer_def addString_def
  addString_chunks.simps addString_tail.simps chunk_entry_def char_to_uint32_def
  Equal_def vector_eq_def nullptr_def Let_def








text \<open>
  Claim C8. The key of an \<^verbatim>\<open>OpaqueArchetypeTypeRef\<close> does not depend on the description.
  Two \<^verbatim>\<open>create\<close> calls on one allocator with the same id, ordinal and argument lists,
  whatever their descriptions and whatever is created between them, return the same
  node, and the second call leaves the allocator as it was. When no node had this key
  before the first call, the node's \<^verbatim>\<open>getDescription\<close> is the first call's description.
\<close>

theorem OpaqueArchetype_description_not_in_key:
  assumes c1: "OpaqueArchetypeTypeRef_create sc A i d1 ord as = Inr (A1, p)"
    and l: "later sc A1 A2"
    and c2: "OpaqueArchetypeTypeRef_create sc A2 i d2 ord as = Inr (A3, q)"
  shows "OpaqueArchetypeTypeRef_Profile sc i d1 ord as = OpaqueArchetypeTypeRef_Profile sc i d2 ord as
       \<and> q = p \<and> A3 = A2
       \<and> (find_entry (TypeRefs A OpaqueArchetype) (OpaqueArchetypeTypeRef_Profile sc i d1 ord as) = None
            \<longrightarrow> (\<exists>TR. deref A3 q = Some TR \<and> getDescription TR = d1))"
proof -
  let ?a1 = "OpaqueArchetypeArgs i d1 ord as" and ?a2 = "OpaqueArchetypeArgs i d2 ord as"
  let ?I = "OpaqueArchetypeTypeRef_Profile sc i d1 ord as"
  have key: "OpaqueArchetypeTypeRef_Profile sc i d1 ord as = OpaqueArchetypeTypeRef_Profile sc i d2 ord as"
    by (simp add: OpaqueArchetypeTypeRef_Profile_def)
  from c1 have f1: "FIND_OR_CREATE_TYPEREF sc A ?a1 = Inr (A1, p)"
    by (simp add: OpaqueArchetypeTypeRef_create_def)
  from c2 have f2: "FIND_OR_CREATE_TYPEREF sc A2 ?a2 = Inr (A3, q)"
    by (simp add: OpaqueArchetypeTypeRef_create_def)
  from f1 have "find_entry (TypeRefs A1 OpaqueArchetype) ?I = Some p"
    using FIND_OR_CREATE_cached [OF f1] by simp
  with l have e2: "find_entry (TypeRefs A2 OpaqueArchetype) ?I = Some p"
    by (rule later_keeps_entries)
  from f2 have same: "q = p \<and> A3 = A2"
  proof (cases rule: FIND_OR_CREATE_cases)
    case hit
    with e2 key show ?thesis by simp
  next
    case (miss TR)
    with e2 key show ?thesis by simp
  qed
  have desc: "\<exists>TR. deref A3 q = Some TR \<and> getDescription TR = d1"
    if absent: "find_entry (TypeRefs A OpaqueArchetype) ?I = None"
  proof -
    from f1 show ?thesis
    proof (cases rule: FIND_OR_CREATE_cases)
      case hit
      with absent show ?thesis by simp
    next
      case (miss TR)
      then have "unat p = Suc (length (Pool A))" by (simp add: unat_node_address)
      with miss have "deref A1 p = Some TR" by (simp add: deref_Some)
      with l have "deref A2 p = Some TR" by (rule later_keeps_nodes)
      moreover from miss have "getDescription TR = d1"
        by (auto dest: OpaqueArchetypeTypeRef_Description)
      ultimately show ?thesis using same by simp
    qed
  qed
  from key same desc show ?thesis by blast
qed

theorem OpaqueArchetype_description_not_in_key_witness:
  "\<exists>A1 p A3 q TR.
       OpaqueArchetypeTypeRef_create True Allocator_new ''id'' ''some A'' 0 [[nullptr]] = Inr (A1, p)
     \<and> later True A1 A1
     \<and> OpaqueArchetypeTypeRef_create True A1 ''id'' ''some B'' 0 [[nullptr]] = Inr (A3, q)
     \<and> find_entry (TypeRefs Allocator_new OpaqueArchetype)
         (OpaqueArchetypeTypeRef_Profile True ''id'' ''some A'' 0 [[nullptr]]) = None
     \<and> q = p \<and> deref A3 q = Some TR \<and> getDescription TR = ''some A''"
proof -
  have "\<exists>A1 p A3 q.
       OpaqueArchetypeTypeRef_create True Allocator_new ''id'' ''some A'' 0 [[nullptr]] = Inr (A1, p)
     \<and> OpaqueArchetypeTypeRef_create True A1 ''id'' ''some B'' 0 [[nullptr]] = Inr (A3, q)"
    by (simp add: OpaqueArchetypeTypeRef_create_def eval_defs)
  then obtain A1 p A3 q where
    c1: "OpaqueArchetypeTypeRef_create True Allocator_new ''id'' ''some A'' 0 [[nullptr]] = Inr (A1, p)" and
    c2: "OpaqueArchetypeTypeRef_create True A1 ''id'' ''some B'' 0 [[nullptr]] = Inr (A3, q)"
    by blast
  have n: "find_entry (TypeRefs Allocator_new OpaqueArchetype)
         (OpaqueArchetypeTypeRef_Profile True ''id'' ''some A'' 0 [[nullptr]]) = None"
    by (simp add: Allocator_new_def)
  from OpaqueArchetype_description_not_in_key [OF c1 later_refl c2] n
  obtain TR where "q = p" "deref A3 q = Some TR" "getDescription TR = ''some A''"
    by blast
  with c1 c2 n later_refl [of True A1] show ?thesis by blast
qed


text \<open>
  Claim C10. The node a constructor builds has the kind of the constructor's class, and
  \<^verbatim>\<open>isa\<close> (the class's \<^verbatim>\<open>classof\<close>) holds of it for that class and for no other. The node
  returned by a \<^verbatim>\<open>create\<close> of a class is found under the returned address in every later
  state of the allocator, with the kind and the \<^verbatim>\<open>classof\<close> answers of that class.
\<close>

theorem kind_discriminant:
  "(construct args = Inr TR \<longrightarrow>
        getKind TR = TypeRefTy args \<and> (\<forall>K. isa K TR \<longleftrightarrow> K = TypeRefTy args))
   \<and> (Allocator_inv A \<and> FIND_OR_CREATE_TYPEREF sc A args = Inr (A1, p) \<and> later sc A1 A2 \<longrightarrow>
        (\<exists>TR'. deref A2 p = Some TR' \<and> getKind TR' = TypeRefTy args
             \<and> (\<forall>K. isa K TR' \<longleftrightarrow> K = TypeRefTy args)))"
proof (intro conjI impI)
  assume "construct args = Inr TR"
  then show "getKind TR = TypeRefTy args" by (rule getKind_construct)
  then show "\<forall>K. isa K TR \<longleftrightarrow> K = TypeRefTy args" by (auto simp: isa_iff)
next
  assume a: "Allocator_inv A \<and> FIND_OR_CREATE_TYPEREF sc A args = Inr (A1, p) \<and> later sc A1 A2"
  then have c: "FIND_OR_CREATE_TYPEREF sc A args = Inr (A1, p)" by simp
  with a have "Allocator_inv A1" by (auto intro: FIND_OR_CREATE_inv)
  moreover from c have "find_entry (TypeRefs A1 (TypeRefTy args)) (Profile sc args) = Some p"
    by (rule FIND_OR_CREATE_cached)
  ultimately obtain TR' where "deref A1 p = Some TR'" "getKind TR' = TypeRefTy args"
    unfolding Allocator_inv_def by blast
  moreover from a this have "deref A2 p = Some TR'" by (auto intro: later_keeps_nodes)
  ultimately show "\<exists>TR'. deref A2 p = Some TR' \<and> getKind TR' = TypeRefTy args
             \<and> (\<forall>K. isa K TR' \<longleftrightarrow> K = TypeRefTy args)"
    by (auto simp: isa_iff)
qed

theorem kind_discriminant_witness:
  "construct (TupleArgs [1, 2] ''a b '') = Inr (TupleTypeRef [1, 2] ''a b '')
   \<and> getKind (TupleTypeRef [1, 2] ''a b '') = Tuple
   \<and> isa Tuple (TupleTypeRef [1, 2] ''a b '')
   \<and> \<not> isa Nominal (TupleTypeRef [1, 2] ''a b '')
   \<and> Allocator_inv Allocator_new
   \<and> (\<exists>A1 p A2 q TR'.
         FIND_OR_CREATE_TYPEREF True Allocator_new (BuiltinArgs ''Bi64_'') = Inr (A1, p)
       \<and> FIND_OR_CREATE_TYPEREF True A1 (TupleArgs [p, p] '''') = Inr (A2, q)
       \<and> later True A1 A2
       \<and> deref A2 p = Some TR' \<and> getKind TR' = Builtin \<and> isa Builtin TR'
       \<and> \<not> isa Tuple TR')"
proof -
  have c: "construct (TupleArgs [1, 2] ''a b '') = Inr (TupleTypeRef [1, 2] ''a b '')" by simp
  have "\<exists>A1 p A2 q.
         FIND_OR_CREATE_TYPEREF True Allocator_new (BuiltinArgs ''Bi64_'') = Inr (A1, p)
       \<and> FIND_OR_CREATE_TYPEREF True A1 (TupleArgs [p, p] '''') = Inr (A2, q)"
    by (simp add: eval_defs)
  then obtain A1 p A2 q where
    c1: "FIND_OR_CREATE_TYPEREF True Allocator_new (BuiltinArgs ''Bi64_'') = Inr (A1, p)" and
    c2: "FIND_OR_CREATE_TYPEREF True A1 (TupleArgs [p, p] '''') = Inr (A2, q)"
    by blast
  have l: "later True A1 A2" using later_refl c2 by (rule later_step)
  from kind_discriminant [of "BuiltinArgs ''Bi64_''" "BuiltinTypeRef ''Bi64_''"
      Allocator_new True A1 p A2] Allocator_new_inv c1 l
  obtain TR' where "deref A2 p = Some TR'" "getKind TR' = Builtin"
    "\<forall>K. isa K TR' \<longleftrightarrow> K = Builtin"
    by auto
  then have "deref A2 p = Some TR' \<and> getKind TR' = Builtin \<and> isa Builtin TR' \<and> \<not> isa Tuple TR'"
    by simp
  with c1 c2 l have ex: "\<exists>A1 p A2 q TR'.
         FIND_OR_CREATE_TYPEREF True Allocator_new (BuiltinArgs ''Bi64_'') = Inr (A1, p)
       \<and> FIND_OR_CREATE_TYPEREF True A1 (TupleArgs [p, p] '''') = Inr (A2, q)
       \<and> later True A1 A2
       \<and> deref A2 p = Some TR' \<and> getKind TR' = Builtin \<and> isa Builtin TR'
       \<and> \<not> isa Tuple TR'"
    by blast
  from kind_discriminant [of "TupleArgs [1, 2] ''a b ''" "TupleTypeRef [1, 2] ''a b ''"] c
  have "getKind (TupleTypeRef [1, 2] ''a b '') = Tuple
   \<and> isa Tuple (TupleTypeRef [1, 2] ''a b '')
   \<and> \<not> isa Nominal (TupleTypeRef [1, 2] ''a b '')"
    by simp
  with c ex Allocator_new_inv show ?thesis by blast
qed


text \<open>
  Claim C7. For every node, \<^verbatim>\<open>visit\<close> returns the result of the handler of the node's kind
  and never traps. As a function of the integer in the kind tag, the \<^verbatim>\<open>switch\<close> reaches
  \<^verbatim>\<open>swift_runtime_unreachable\<close> exactly for the integers that are the value of no
  enumerator.
\<close>

theorem visit_dispatch:
  "visit Impl typeRef args = Inr (Impl (getKind typeRef) typeRef args)
   \<and> (visit_switch TYPEREF_entries Impl tag typeRef args = Inl Unreachable
        \<longleftrightarrow> tag \<notin> range TypeRefKind_value)"
proof
  show "visit Impl typeRef args = Inr (Impl (getKind typeRef) typeRef args)"
    unfolding visit_def by (rule visit_switch_found) (simp_all add: all_kinds isa_iff)
next
  have "set TYPEREF_entries = UNIV" using all_kinds by auto
  then show "visit_switch TYPEREF_entries Impl tag typeRef args = Inl Unreachable
        \<longleftrightarrow> tag \<notin> range TypeRefKind_value"
    by (simp add: visit_switch_Unreachable)
qed

theorem visit_dispatch_witness:
  "visit (\<lambda>K TR (u :: unit). K) (MetatypeTypeRef 1 False) () = Inr Metatype
   \<and> visit_switch TYPEREF_entries (\<lambda>K TR (u :: unit). K) 19 (MetatypeTypeRef 1 False) ()
       = Inl Unreachable
   \<and> visit_switch TYPEREF_entries (\<lambda>K TR (u :: unit). K) 7 (MetatypeTypeRef 1 False) ()
       = Inr Metatype"
proof -
  have k: "getKind (MetatypeTypeRef 1 False) = Metatype"
    by (simp add: getKind_def MetatypeTypeRef_def)
  have "visit_switch TYPEREF_entries (\<lambda>K TR (u :: unit). K) 19 (MetatypeTypeRef 1 False) ()
       = Inl Unreachable"
    by (simp add: TYPEREF_entries_def TypeRefKind_value_def)
  moreover have "visit_switch TYPEREF_entries (\<lambda>K TR (u :: unit). K) 7 (MetatypeTypeRef 1 False) ()
       = Inr Metatype"
    by (simp add: TYPEREF_entries_def TypeRefKind_value_def MetatypeTypeRef_classof_def k)
  ultimately show ?thesis
    using visit_dispatch [of "\<lambda>K TR (u :: unit). K" "MetatypeTypeRef 1 False" "()" 19] k
    by simp
qed

section \<open>Unification and substitution over the arena\<close>

lemma deref_nullptr [simp]: "deref A nullptr = None"
  by (simp add: deref_def)

lemma deref_index:
  "deref A p = Some TR \<Longrightarrow> unat p - 1 < length (Pool A) \<and> TR = Pool A ! (unat p - 1)
     \<and> p \<noteq> nullptr \<and> 0 < unat p"
  by (auto simp: deref_Some nullptr_def)

lemma child_valid:
  assumes ce: "children_earlier A" and d: "deref A p = Some TR"
    and c: "c \<in> set (children (Fields TR))" and nn: "c \<noteq> nullptr"
  shows "(\<exists>TR'. deref A c = Some TR') \<and> unat c < unat p"
proof -
  from d have i: "unat p - 1 < length (Pool A)" "TR = Pool A ! (unat p - 1)" "0 < unat p"
    by (auto dest: deref_index)
  with ce c have le: "unat c \<le> unat p - 1" unfolding children_earlier_def by blast
  from nn have "0 < unat c" by (simp add: nullptr_def unat_gt_0)
  with le i show ?thesis by (auto simp: deref_Some)
qed

lemma deriveSubstitutions_parameter:
  "deref A OrigTR = Some Orig \<Longrightarrow> Fields Orig = GenericTypeParameterFields d i \<Longrightarrow>
   deriveSubstitutions (Suc fuel) A Subs OrigTR SubstTR =
     (case Subs (d, i) of
        None \<Rightarrow> Inr (True, Subs((d, i) \<mapsto> SubstTR))
      | Some Bound \<Rightarrow> Inr (Bound = SubstTR, Subs))"
  by simp

lemma deriveSubstitutions_not_parameter:
  "deref A OrigTR = Some Orig \<Longrightarrow> \<forall>d i. Fields Orig \<noteq> GenericTypeParameterFields d i \<Longrightarrow>
   deriveSubstitutions (Suc fuel) A Subs OrigTR SubstTR =
     (case deref A SubstTR of
        None \<Rightarrow> Inl NullDereference
      | Some Subst \<Rightarrow>
          if children (Fields Orig) = [] then Inr (OrigTR = SubstTR, Subs)
          else if same_shape Orig Subst
          then derive_children (deriveSubstitutions fuel A) Subs
                 (children (Fields Orig)) (children (Fields Subst))
          else Inr (False, Subs))"
  by (cases "Fields Orig") simp_all

declare deriveSubstitutions.simps(2) [simp del]

lemma derive_children_success:
  assumes "derive_children rec Subs cs ds = Inr (True, Subs')"
    and "\<And>S c d S'. c \<in> set cs \<Longrightarrow> rec S c d = Inr (True, S') \<Longrightarrow>
           S \<subseteq>\<^sub>m S' \<and> (\<forall>x B. P c d x B \<longrightarrow> S' x = Some B)"
  shows "Subs \<subseteq>\<^sub>m Subs'
       \<and> (\<forall>c d x B. (c, d) \<in> set (zip cs ds) \<longrightarrow> c \<noteq> nullptr \<longrightarrow> P c d x B
             \<longrightarrow> Subs' x = Some B)"
  using assms
proof (induction rec Subs cs ds rule: derive_children.induct)
  case (1 rec Subs)
  then show ?case by simp
next
  case (2 rec Subs c cs d ds)
  have step: "S \<subseteq>\<^sub>m S' \<and> (\<forall>x B. P c' d' x B \<longrightarrow> S' x = Some B)"
    if "c' \<in> set cs" "rec S c' d' = Inr (True, S')" for S c' d' S'
    using "2.prems"(2) [of c' S d' S'] that by simp
  show ?case
  proof (cases "c = nullptr \<or> d = nullptr")
    case True
    with "2.prems"(1) have eq: "c = d" and r: "derive_children rec Subs cs ds = Inr (True, Subs')"
      by (simp_all split: if_splits)
    from "2.IH"(1) [OF True eq r step]
    have t1: "Subs \<subseteq>\<^sub>m Subs'"
      and t3: "\<forall>c d x B. (c, d) \<in> set (zip cs ds) \<longrightarrow> c \<noteq> nullptr \<longrightarrow> P c d x B
             \<longrightarrow> Subs' x = Some B"
      by blast+
    have "Subs' x = Some B"
      if "(c', d') \<in> set (zip (c # cs) (d # ds))" "c' \<noteq> nullptr" "P c' d' x B" for c' d' x B
    proof -
      from that(1) have "(c' = c \<and> d' = d) \<or> (c', d') \<in> set (zip cs ds)" by simp
      then show ?thesis
      proof
        assume "c' = c \<and> d' = d"
        with True eq that(2) show ?thesis by simp
      next
        assume "(c', d') \<in> set (zip cs ds)"
        with t3 that(2,3) show ?thesis by blast
      qed
    qed
    with t1 show ?thesis by blast
  next
    case False
    from "2.prems"(1) False obtain ok Subs1 where h0: "rec Subs c d = Inr (ok, Subs1)"
      by (cases "rec Subs c d") auto
    with "2.prems"(1) False have ok: ok by (cases ok) simp_all
    with h0 have h: "rec Subs c d = Inr (True, Subs1)" by simp
    from "2.prems"(1) False h have r: "derive_children rec Subs1 cs ds = Inr (True, Subs')"
      by simp
    from "2.prems"(2) [of c Subs d Subs1] h
    have h1: "Subs \<subseteq>\<^sub>m Subs1" and h2: "\<forall>x B. P c d x B \<longrightarrow> Subs1 x = Some B"
      by simp_all
    from "2.IH"(2) [OF False h refl _ r step]
    have t1: "Subs1 \<subseteq>\<^sub>m Subs'"
      and t3: "\<forall>c d x B. (c, d) \<in> set (zip cs ds) \<longrightarrow> c \<noteq> nullptr \<longrightarrow> P c d x B
             \<longrightarrow> Subs' x = Some B"
      by blast+
    from h1 t1 have le: "Subs \<subseteq>\<^sub>m Subs'" by (rule map_le_trans)
    have "Subs' x = Some B"
      if "(c', d') \<in> set (zip (c # cs) (d # ds))" "c' \<noteq> nullptr" "P c' d' x B" for c' d' x B
    proof -
      from that(1) have "(c' = c \<and> d' = d) \<or> (c', d') \<in> set (zip cs ds)" by simp
      then show ?thesis
      proof
        assume e: "c' = c \<and> d' = d"
        with that(3) h2 have "Subs1 x = Some B" by blast
        with t1 show ?thesis by (metis domI map_le_def)
      next
        assume "(c', d') \<in> set (zip cs ds)"
        with t3 that(2,3) show ?thesis by blast
      qed
    qed
    with le show ?thesis by blast
  qed
next
  case (3 rec Subs d ds)
  then show ?case by simp
next
  case (4 rec Subs c cs)
  then show ?case by simp
qed

lemma walk_binds_cases:
  assumes "walk_binds A OrigTR SubstTR x B" and "deref A OrigTR = Some Orig"
  obtains (here) d i where "Fields Orig = GenericTypeParameterFields d i" "x = (d, i)" "B = SubstTR"
  | (below) Subst k where "deref A SubstTR = Some Subst"
      "k < length (children (Fields Orig))" "k < length (children (Fields Subst))"
      "walk_binds A (children (Fields Orig) ! k) (children (Fields Subst) ! k) x B"
  using assms by (cases rule: walk_binds.cases) auto

lemma walk_binds_valid: "walk_binds A OrigTR SubstTR x B \<Longrightarrow> OrigTR \<noteq> nullptr"
  by (cases rule: walk_binds.cases) auto

lemma derive_success:
  "deriveSubstitutions fuel A Subs OrigTR SubstTR = Inr (True, Subs') \<Longrightarrow>
   Subs \<subseteq>\<^sub>m Subs' \<and> (\<forall>x B. walk_binds A OrigTR SubstTR x B \<longrightarrow> Subs' x = Some B)"
proof (induction fuel arbitrary: Subs OrigTR SubstTR Subs')
  case 0
  then show ?case by simp
next
  case (Suc fuel)
  from Suc.prems obtain Orig where o: "deref A OrigTR = Some Orig"
    by (cases "deref A OrigTR") (simp_all add: deriveSubstitutions.simps(2))
  show ?case
  proof (cases "\<exists>d i. Fields Orig = GenericTypeParameterFields d i")
    case True
    then obtain d i where f: "Fields Orig = GenericTypeParameterFields d i" by blast
    have w: "x = (d, i) \<and> B = SubstTR" if "walk_binds A OrigTR SubstTR x B" for x B
      using that o by (cases rule: walk_binds_cases) (simp_all add: f)
    have b: "Subs' (d, i) = Some SubstTR" and le: "Subs \<subseteq>\<^sub>m Subs'"
    proof -
      show "Subs' (d, i) = Some SubstTR"
      proof (cases "Subs (d, i)")
        case None
        with Suc.prems o f have "Subs' = Subs((d, i) \<mapsto> SubstTR)"
          by (simp add: deriveSubstitutions_parameter)
        then show ?thesis by simp
      next
        case (Some Bound)
        with Suc.prems o f have "Subs' = Subs" "Bound = SubstTR"
          by (simp_all add: deriveSubstitutions_parameter)
        with Some show ?thesis by simp
      qed
      show "Subs \<subseteq>\<^sub>m Subs'"
      proof (cases "Subs (d, i)")
        case None
        with Suc.prems o f have "Subs' = Subs((d, i) \<mapsto> SubstTR)"
          by (simp add: deriveSubstitutions_parameter)
        with None show ?thesis by (auto simp: map_le_def)
      next
        case (Some Bound)
        with Suc.prems o f have "Subs' = Subs"
          by (simp add: deriveSubstitutions_parameter)
        then show ?thesis by simp
      qed
    qed
    have "Subs' x = Some B" if "walk_binds A OrigTR SubstTR x B" for x B
      using w [OF that] b by simp
    with le show ?thesis by simp
  next
    case False
    then have nf: "\<forall>d i. Fields Orig \<noteq> GenericTypeParameterFields d i" by simp
    from Suc.prems o nf obtain Subst where s: "deref A SubstTR = Some Subst"
      by (cases "deref A SubstTR") (simp_all add: deriveSubstitutions_not_parameter)
    show ?thesis
    proof (cases "children (Fields Orig) = []")
      case True
      with Suc.prems o nf s have e: "Subs' = Subs"
        by (simp add: deriveSubstitutions_not_parameter)
      have "\<not> walk_binds A OrigTR SubstTR x B" for x B
      proof
        assume "walk_binds A OrigTR SubstTR x B"
        then show False using o
        proof (cases rule: walk_binds_cases)
          case (here d i)
          with nf show ?thesis by simp
        next
          case (below Subst' k)
          with True show ?thesis by simp
        qed
      qed
      with e show ?thesis by simp
    next
      case False
      with Suc.prems o nf s have
        r: "derive_children (deriveSubstitutions fuel A) Subs
              (children (Fields Orig)) (children (Fields Subst)) = Inr (True, Subs')"
        by (simp add: deriveSubstitutions_not_parameter split: if_splits)
      have step: "\<And>S c d S'. c \<in> set (children (Fields Orig)) \<Longrightarrow>
           deriveSubstitutions fuel A S c d = Inr (True, S') \<Longrightarrow>
           S \<subseteq>\<^sub>m S' \<and> (\<forall>x B. walk_binds A c d x B \<longrightarrow> S' x = Some B)"
        using Suc.IH by blast
      from derive_children_success [where P = "walk_binds A", OF r step]
      have le: "Subs \<subseteq>\<^sub>m Subs'"
        and all: "\<forall>c d x B. (c, d) \<in> set (zip (children (Fields Orig)) (children (Fields Subst)))
            \<longrightarrow> c \<noteq> nullptr \<longrightarrow> walk_binds A c d x B \<longrightarrow> Subs' x = Some B"
        by blast+
      have "Subs' x = Some B" if "walk_binds A OrigTR SubstTR x B" for x B
        using that o
      proof (cases rule: walk_binds_cases)
        case (here d i)
        with nf show ?thesis by simp
      next
        case (below Subst' k)
        with s have e: "Subst' = Subst" by simp
        from below(4) have nn: "children (Fields Orig) ! k \<noteq> nullptr"
          by (rule walk_binds_valid)
        from below(2,3) e
        have "(children (Fields Orig) ! k, children (Fields Subst) ! k)
              \<in> set (zip (children (Fields Orig)) (children (Fields Subst)))"
          by (auto simp: set_zip)
        with all nn below(4) e show ?thesis by blast
      qed
      with le show ?thesis by simp
    qed
  qed
qed

lemma derive_children_total:
  assumes "\<And>S c d. c \<in> set cs \<Longrightarrow> d \<in> set ds \<Longrightarrow> c \<noteq> nullptr \<Longrightarrow> d \<noteq> nullptr \<Longrightarrow>
             \<not> isl (rec S c d)"
  shows "\<not> isl (derive_children rec Subs cs ds)"
  using assms
proof (induction rec Subs cs ds rule: derive_children.induct)
  case (1 rec Subs)
  show ?case by simp
next
  case (2 rec Subs c cs d ds)
  have step: "\<not> isl (rec S c' d')"
    if "c' \<in> set cs" "d' \<in> set ds" "c' \<noteq> nullptr" "d' \<noteq> nullptr" for S c' d'
    using "2.prems" [of c' d' S] that by simp
  show ?case
  proof (cases "c = nullptr \<or> d = nullptr")
    case True
    show ?thesis
    proof (cases "c = d")
      case eq: True
      from "2.IH"(1) [OF True eq step] True eq show ?thesis by simp
    next
      case False
      with True show ?thesis by simp
    qed
  next
    case False
    with "2.prems" [of c d Subs] have "\<not> isl (rec Subs c d)" by simp
    then obtain ok Subs1 where h: "rec Subs c d = Inr (ok, Subs1)"
      by (cases "rec Subs c d") auto
    show ?thesis
    proof (cases ok)
      case True
      from "2.IH"(2) [OF False h refl True step] False h True show ?thesis by simp
    next
      case no: False
      with False h show ?thesis by simp
    qed
  qed
next
  case (3 rec Subs d ds)
  show ?case by simp
next
  case (4 rec Subs c cs)
  show ?case by simp
qed

lemma derive_total:
  "children_earlier A \<Longrightarrow> deref A OrigTR = Some Orig \<Longrightarrow> deref A SubstTR = Some Subst \<Longrightarrow>
   unat OrigTR \<le> fuel \<Longrightarrow> \<not> isl (deriveSubstitutions fuel A Subs OrigTR SubstTR)"
proof (induction fuel arbitrary: Subs OrigTR SubstTR Orig Subst)
  case 0
  then show ?case by (auto dest: deref_index)
next
  case (Suc fuel)
  show ?case
  proof (cases "\<exists>d i. Fields Orig = GenericTypeParameterFields d i")
    case True
    then obtain d i where f: "Fields Orig = GenericTypeParameterFields d i" by blast
    with Suc.prems(2) show ?thesis
      by (cases "Subs (d, i)") (simp_all add: deriveSubstitutions_parameter)
  next
    case False
    then have nf: "\<forall>d i. Fields Orig \<noteq> GenericTypeParameterFields d i" by simp
    have "\<not> isl (deriveSubstitutions fuel A S c d)"
      if "c \<in> set (children (Fields Orig))" "d \<in> set (children (Fields Subst))"
        "c \<noteq> nullptr" "d \<noteq> nullptr" for S c d
    proof -
      from child_valid [OF Suc.prems(1) Suc.prems(2) that(1) that(3)]
      obtain C where c: "deref A c = Some C" "unat c < unat OrigTR" by blast
      from child_valid [OF Suc.prems(1) Suc.prems(3) that(2) that(4)]
      obtain D where d: "deref A d = Some D" by blast
      from c Suc.prems(4) have "unat c \<le> fuel" by simp
      from Suc.IH [OF Suc.prems(1) c(1) d this] show ?thesis .
    qed
    then have "\<not> isl (derive_children (deriveSubstitutions fuel A) Subs
                 (children (Fields Orig)) (children (Fields Subst)))"
      by (rule derive_children_total)
    with Suc.prems(2,3) nf show ?thesis
      by (simp add: deriveSubstitutions_not_parameter)
  qed
qed


lemma OpaqueArchetypeTypeRef_Inr:
  assumes "OpaqueArchetypeTypeRef i d ord as = Inr TR"
  shows "TR = \<lparr>Kind = OpaqueArchetype,
               Fields = OpaqueArchetypeFields i d ord (concat as)
                          (views_from 0 (map length as))\<rparr>"
proof -
  let ?lens = "map (\<lambda>l. of_nat (length l) :: uint32_t) as"
  let ?ulens = "map (\<lambda>l. unat (of_nat (length l) :: uint32_t)) as"
  have c: "copy_argumentLists as = (?lens, concat as)"
    using copy_argumentLists_fold [of as "[]" "[]"] by (simp add: copy_argumentLists_def)
  have p: "publish_views ?lens = (sum_list ?ulens, views_from 0 ?ulens)"
    using publish_views_fold [of ?lens 0 "[]"] by (simp add: publish_views_def comp_def)
  from assms have sum: "sum_list ?ulens = length (concat as)"
    by (simp add: OpaqueArchetypeTypeRef_def c p split: if_splits)
  then have u: "?ulens = map length as" by (rule trunc_sum)
  from assms sum have "TR = \<lparr>Kind = OpaqueArchetype,
        Fields = OpaqueArchetypeFields i d ord (concat as) (views_from 0 ?ulens)\<rparr>"
    by (simp add: OpaqueArchetypeTypeRef_def c p)
  then show ?thesis by (simp only: u)
qed

lemma views_from_concat:
  "map (ArrayRef_elems (concat as)) (views_from 0 (map length as)) = as"
  using views_from_elems [of "[]" 0 as "[]"] by simp

lemma zip_getType:
  "map (\<lambda>(P, t). P\<lparr>getType := t\<rparr>) (zip ps (map getType ps @ rest)) = ps"
  by (induction ps) simp_all

lemma own_args_construct:
  assumes "construct args = Inr TR"
  shows "own_args TR = args"
proof (cases args)
  case (OpaqueArchetypeArgs i d ord as)
  with assms have "OpaqueArchetypeTypeRef i d ord as = Inr TR" by simp
  then have "TR = \<lparr>Kind = OpaqueArchetype,
               Fields = OpaqueArchetypeFields i d ord (concat as)
                          (views_from 0 (map length as))\<rparr>"
    by (rule OpaqueArchetypeTypeRef_Inr)
  with OpaqueArchetypeArgs show ?thesis
    by (simp add: own_args_def with_children_def views_from_concat)
next
  case (FunctionArgs ps r fl)
  with assms show ?thesis
    by (auto simp: own_args_def with_children_def FunctionTypeRef_def nth_or_def zip_getType
          nth_append)
next
  case (ProtocolCompositionArgs ps s h)
  with assms show ?thesis
    by (auto simp: own_args_def with_children_def ProtocolCompositionTypeRef_def nth_or_def
          nth_append)
qed (use assms in \<open>auto simp: own_args_def with_children_def first_or_def
        BuiltinTypeRef_def NominalTypeRef_def BoundGenericTypeRef_def TupleTypeRef_def
        MetatypeTypeRef_def ExistentialMetatypeTypeRef_def
        GenericTypeParameterTypeRef_def DependentMemberTypeRef_def ForeignClassTypeRef_def
        ObjCClassTypeRef_def ObjCProtocolTypeRef_def OpaqueTypeRef_def
        ReferenceStorageTypeRef_def WeakStorageTypeRef_def UnownedStorageTypeRef_def
        UnmanagedStorageTypeRef_def SILBoxTypeRef_def\<close>)

lemma TypeRefTy_with_children:
  "TypeRefTy (with_children TR cs) = TypeRefTy (with_children TR cs')"
  by (cases "Fields TR"; cases "Kind TR") (simp_all add: with_children_def)

lemma node_address_unat:
  "0 < unat p \<Longrightarrow> node_address (unat p - Suc 0) = p"
  by (simp add: node_address_def)

lemma Arena_inv_hit:
  assumes inv: "Arena_inv sc A" and d: "deref A T = Some TR"
  shows "FIND_OR_CREATE_TYPEREF sc A (own_args TR) = Inr (A, T)"
proof -
  from d have i: "unat T - 1 < length (Pool A)" "TR = Pool A ! (unat T - 1)" "0 < unat T"
    by (auto dest: deref_index)
  with inv have c: "construct (own_args TR) = Inr TR"
    and f: "find_entry (TypeRefs A (getKind TR)) (Profile sc (own_args TR))
            = Some (node_address (unat T - 1))"
    unfolding Arena_inv_def by blast+
  from c have "getKind TR = TypeRefTy (own_args TR)" by (rule getKind_construct)
  with f i(3) show ?thesis
    by (simp add: FIND_OR_CREATE_TYPEREF_def node_address_unat)
qed

lemma subst_children_same:
  assumes "\<And>c. c \<in> set cs \<Longrightarrow> c \<noteq> nullptr \<Longrightarrow> rec A c = Inr (A, c)"
  shows "subst_children rec A cs = Inr (A, cs)"
  using assms by (induction cs) auto

lemma bound_to_empty: "bound_to Map.empty TR = None"
  by (cases "Fields TR") (simp_all add: bound_to_def)

lemma subst_empty:
  "Arena_inv sc A \<Longrightarrow> deref A T = Some TR \<Longrightarrow> unat T \<le> fuel \<Longrightarrow>
   subst fuel sc Map.empty A T = Inr (A, T)"
proof (induction fuel arbitrary: T TR)
  case 0
  then show ?case by (auto dest: deref_index)
next
  case (Suc fuel)
  from Suc.prems(1) have ce: "children_earlier A" by (simp add: Arena_inv_def)
  have "subst fuel sc Map.empty A c = Inr (A, c)"
    if "c \<in> set (children (Fields TR))" "c \<noteq> nullptr" for c
  proof -
    from child_valid [OF ce Suc.prems(2) that]
    obtain C where c: "deref A c = Some C" "unat c < unat T" by blast
    with Suc.prems(3) have "unat c \<le> fuel" by simp
    from Suc.IH [OF Suc.prems(1) c(1) this] show ?thesis .
  qed
  then have "subst_children (subst fuel sc Map.empty) A (children (Fields TR))
             = Inr (A, children (Fields TR))"
    by (rule subst_children_same)
  moreover have "FIND_OR_CREATE_TYPEREF sc A (with_children TR (children (Fields TR))) = Inr (A, T)"
    using Arena_inv_hit [OF Suc.prems(1,2)] by (simp add: own_args_def)
  ultimately show ?case using Suc.prems(2)
    by (simp add: bound_to_empty)
qed

lemma Arena_inv_new: "Arena_inv sc Allocator_new"
  by (simp add: Arena_inv_def children_earlier_def Allocator_new_inv)
     (simp add: Allocator_new_def)

lemma Arena_inv_create:
  assumes inv: "Arena_inv sc A" and c: "FIND_OR_CREATE_TYPEREF sc A args = Inr (A', p)"
    and valid: "\<And>TR c. construct args = Inr TR \<Longrightarrow> c \<in> set (children (Fields TR)) \<Longrightarrow>
                  c = nullptr \<or> deref A c \<noteq> None"
  shows "Arena_inv sc A'"
  using c
proof (cases rule: FIND_OR_CREATE_cases)
  case hit
  with inv show ?thesis by simp
next
  case (miss TR)
  let ?n = "length (Pool A)"
  from inv have ai: "Allocator_inv A" and ce: "children_earlier A"
    and reg: "\<And>i. i < ?n \<Longrightarrow> construct (own_args (Pool A ! i)) = Inr (Pool A ! i)
        \<and> find_entry (TypeRefs A (getKind (Pool A ! i))) (Profile sc (own_args (Pool A ! i)))
            = Some (node_address i)"
    unfolding Arena_inv_def by blast+
  from c ai have ai': "Allocator_inv A'" by (rule FIND_OR_CREATE_inv)
  from miss have pool: "Pool A' = Pool A @ [TR]" by simp
  from miss have own: "own_args TR = args" by (simp add: own_args_construct)
  from miss have kind: "getKind TR = TypeRefTy args" by (simp add: getKind_construct)
  have ce': "children_earlier A'"
    unfolding children_earlier_def
  proof (intro allI impI ballI)
    fix i c assume i: "i < length (Pool A')" and cc: "c \<in> set (children (Fields (Pool A' ! i)))"
    show "unat c \<le> i"
    proof (cases "i < ?n")
      case True
      with cc pool have "c \<in> set (children (Fields (Pool A ! i)))" by (simp add: nth_append)
      with ce True show ?thesis unfolding children_earlier_def by blast
    next
      case False
      with i pool have e: "i = ?n" by simp
      with cc pool have "c \<in> set (children (Fields TR))" by simp
      from valid [OF miss(2) this] show ?thesis
      proof
        assume "c = nullptr"
        then show ?thesis by (simp add: nullptr_def)
      next
        assume "deref A c \<noteq> None"
        then show ?thesis using e by (auto simp: deref_Some)
      qed
    qed
  qed
  have reg': "construct (own_args (Pool A' ! i)) = Inr (Pool A' ! i)
        \<and> find_entry (TypeRefs A' (getKind (Pool A' ! i))) (Profile sc (own_args (Pool A' ! i)))
            = Some (node_address i)" if i: "i < length (Pool A')" for i
  proof (cases "i < ?n")
    case True
    with pool have e: "Pool A' ! i = Pool A ! i" by (simp add: nth_append)
    from reg [OF True] FIND_OR_CREATE_keeps_entries [OF c] e show ?thesis by simp
  next
    case False
    with i pool have e: "i = ?n" by simp
    with pool have "Pool A' ! i = TR" by simp
    moreover from c have "find_entry (TypeRefs A' (TypeRefTy args)) (Profile sc args) = Some p"
      by (rule FIND_OR_CREATE_cached)
    ultimately show ?thesis using miss(2,4) own kind e by simp
  qed
  from ai' ce' reg' show ?thesis unfolding Arena_inv_def by blast
qed

lemma FIND_OR_CREATE_deref:
  assumes "Allocator_inv A" and c: "FIND_OR_CREATE_TYPEREF sc A args = Inr (A', p)"
  shows "\<exists>TR. deref A' p = Some TR \<and> getKind TR = TypeRefTy args"
proof -
  from c assms(1) have "Allocator_inv A'" by (rule FIND_OR_CREATE_inv)
  moreover from c have "find_entry (TypeRefs A' (TypeRefTy args)) (Profile sc args) = Some p"
    by (rule FIND_OR_CREATE_cached)
  ultimately show ?thesis unfolding Allocator_inv_def by blast
qed


section \<open>Claims about unification and substitution\<close>

text \<open>
  Claim C3. In an arena whose nodes have their children created before them, let the
  pattern and the instance be nodes and the fuel at least the pattern's address. If the
  lock-step walk pairs a generic type parameter of some coordinate with a node \<open>B1\<close>,
  and the same coordinate is also paired with, or already bound in \<open>Subs\<close> to, a
  different node \<open>B2\<close>, then \<^verbatim>\<open>deriveSubstitutions\<close> returns, and what it returns is
  failure. The instance of the claim, the pattern \<^verbatim>\<open>Tuple([GTP(0,0), GTP(0,0)], "")\<close> against
  \<^verbatim>\<open>Tuple([Nominal("Int"), Nominal("String")], "")\<close>, is the witness below.
\<close>

theorem deriveSubstitutions_conflict:
  assumes "children_earlier A"
    and "deref A OrigTR = Some Orig" and "deref A SubstTR = Some Subst"
    and "unat OrigTR \<le> fuel"
    and "walk_binds A OrigTR SubstTR c B1"
    and "walk_binds A OrigTR SubstTR c B2 \<or> Subs c = Some B2"
    and "B1 \<noteq> B2"
  shows "\<exists>Subs'. deriveSubstitutions fuel A Subs OrigTR SubstTR = Inr (False, Subs')"
proof -
  from derive_total [OF assms(1-4), of Subs]
  obtain ok Subs' where r: "deriveSubstitutions fuel A Subs OrigTR SubstTR = Inr (ok, Subs')"
    by (cases "deriveSubstitutions fuel A Subs OrigTR SubstTR") auto
  have "\<not> ok"
  proof
    assume ok
    with r have "deriveSubstitutions fuel A Subs OrigTR SubstTR = Inr (True, Subs')" by simp
    from derive_success [OF this]
    have le: "Subs \<subseteq>\<^sub>m Subs'"
      and all: "\<forall>x B. walk_binds A OrigTR SubstTR x B \<longrightarrow> Subs' x = Some B"
      by blast+
    from all assms(5) have b1: "Subs' c = Some B1" by blast
    from assms(6) have "Subs' c = Some B2"
    proof
      assume "walk_binds A OrigTR SubstTR c B2"
      with all show ?thesis by blast
    next
      assume "Subs c = Some B2"
      with le show ?thesis by (metis domI map_le_def)
    qed
    with b1 assms(7) show False by simp
  qed
  with r show ?thesis by auto
qed

theorem deriveSubstitutions_conflict_witness:
  "\<exists>A1 T A2 I A3 S A4 Orig A5 Subst.
      FIND_OR_CREATE_TYPEREF True Allocator_new (GenericTypeParameterArgs 0 0) = Inr (A1, T)
    \<and> FIND_OR_CREATE_TYPEREF True A1 (NominalArgs ''Int'' nullptr) = Inr (A2, I)
    \<and> FIND_OR_CREATE_TYPEREF True A2 (NominalArgs ''String'' nullptr) = Inr (A3, S)
    \<and> FIND_OR_CREATE_TYPEREF True A3 (TupleArgs [T, T] '''') = Inr (A4, Orig)
    \<and> FIND_OR_CREATE_TYPEREF True A4 (TupleArgs [I, S] '''') = Inr (A5, Subst)
    \<and> children_earlier A5
    \<and> walk_binds A5 Orig Subst (0, 0) I \<and> walk_binds A5 Orig Subst (0, 0) S \<and> I \<noteq> S
    \<and> unat Orig \<le> 4
    \<and> (\<exists>Subs'. deriveSubstitutions 4 A5 Map.empty Orig Subst = Inr (False, Subs'))
    \<and> deriveSubstitutions 4 A5 Map.empty Orig Subst = Inr (False, [(0, 0) \<mapsto> I])"
proof -
  let ?kT = "Profile True (GenericTypeParameterArgs 0 0)"
  let ?kI = "Profile True (NominalArgs ''Int'' nullptr)"
  let ?kS = "Profile True (NominalArgs ''String'' nullptr)"
  let ?kO = "Profile True (TupleArgs [1, 1] '''')"
  let ?kU = "Profile True (TupleArgs [2, 3] '''')"
  let ?T = "GenericTypeParameterTypeRef 0 0"
  let ?I = "NominalTypeRef ''Int'' nullptr"
  let ?S = "NominalTypeRef ''String'' nullptr"
  let ?O = "TupleTypeRef [1, 1] ''''"
  let ?U = "TupleTypeRef [2, 3] ''''"
  define A1 where "A1 = \<lparr>Pool = [?T], TypeRefs = (\<lambda>K. [])(GenericTypeParameter := [(?kT, 1)])\<rparr>"
  define A2 where "A2 = \<lparr>Pool = [?T, ?I],
    TypeRefs = (\<lambda>K. [])(GenericTypeParameter := [(?kT, 1)], Nominal := [(?kI, 2)])\<rparr>"
  define A3 where "A3 = \<lparr>Pool = [?T, ?I, ?S],
    TypeRefs = (\<lambda>K. [])(GenericTypeParameter := [(?kT, 1)], Nominal := [(?kI, 2), (?kS, 3)])\<rparr>"
  define A4 where "A4 = \<lparr>Pool = [?T, ?I, ?S, ?O],
    TypeRefs = (\<lambda>K. [])(GenericTypeParameter := [(?kT, 1)], Nominal := [(?kI, 2), (?kS, 3)],
                         Tuple := [(?kO, 4)])\<rparr>"
  define A5 where "A5 = \<lparr>Pool = [?T, ?I, ?S, ?O, ?U],
    TypeRefs = (\<lambda>K. [])(GenericTypeParameter := [(?kT, 1)], Nominal := [(?kI, 2), (?kS, 3)],
                         Tuple := [(?kO, 4), (?kU, 5)])\<rparr>"
  have c1: "FIND_OR_CREATE_TYPEREF True Allocator_new (GenericTypeParameterArgs 0 0) = Inr (A1, 1)"
    by (simp add: A1_def eval_defs)
  have c2: "FIND_OR_CREATE_TYPEREF True A1 (NominalArgs ''Int'' nullptr) = Inr (A2, 2)"
    by (simp add: A1_def A2_def eval_defs)
  have c3: "FIND_OR_CREATE_TYPEREF True A2 (NominalArgs ''String'' nullptr) = Inr (A3, 3)"
    by (simp add: A2_def A3_def eval_defs)
  have c4: "FIND_OR_CREATE_TYPEREF True A3 (TupleArgs [1, 1] '''') = Inr (A4, 4)"
    by (simp add: A3_def A4_def eval_defs)
  have c5: "FIND_OR_CREATE_TYPEREF True A4 (TupleArgs [2, 3] '''') = Inr (A5, 5)"
    by (simp add: A4_def A5_def eval_defs)
  have d: "deref A5 1 = Some ?T" "deref A5 2 = Some ?I" "deref A5 3 = Some ?S"
    "deref A5 4 = Some ?O" "deref A5 5 = Some ?U"
    by (simp_all add: deref_def A5_def nullptr_def)
  have ce: "children_earlier A5"
    by (auto simp: children_earlier_def A5_def less_Suc_eq nullptr_def
          GenericTypeParameterTypeRef_def NominalTypeRef_def TupleTypeRef_def)
  have fO: "children (Fields ?O) = [1, 1]" and fU: "children (Fields ?U) = [2, 3]"
    by (simp_all add: TupleTypeRef_def)
  have h: "walk_binds A5 1 B (0, 0) B" for B
    by (rule binds_here [OF d(1)]) (simp add: GenericTypeParameterTypeRef_def)
  have w1: "walk_binds A5 4 5 (0, 0) 2"
    by (rule binds_below [OF d(4) d(5), of 0]) (simp_all add: fO fU h)
  have w2: "walk_binds A5 4 5 (0, 0) 3"
    by (rule binds_below [OF d(4) d(5), of 1]) (simp_all add: fO fU h)
  have ne: "(2 :: ptr) \<noteq> 3" by simp
  have u: "unat (4 :: ptr) \<le> 4" by simp
  from deriveSubstitutions_conflict [OF ce d(4) d(5) u w1 disjI1 [OF w2] ne, of Map.empty]
  have ex: "\<exists>Subs'. deriveSubstitutions 4 A5 Map.empty 4 5 = Inr (False, Subs')" .
  have g: "deriveSubstitutions (Suc 2) A5 Subs 1 B =
      (case Subs (0, 0) of None \<Rightarrow> Inr (True, Subs((0, 0) \<mapsto> B))
       | Some Bound \<Rightarrow> Inr (Bound = B, Subs))" for Subs B
    by (rule deriveSubstitutions_parameter [OF d(1)]) (simp add: GenericTypeParameterTypeRef_def)
  have ss: "same_shape ?O ?U" by (simp add: same_shape_def getKind_def TupleTypeRef_def)
  have "deriveSubstitutions (Suc 3) A5 Map.empty 4 5 =
        derive_children (deriveSubstitutions 3 A5) Map.empty [1, 1] [2, 3]"
    by (subst deriveSubstitutions_not_parameter [OF d(4)])
       (simp_all add: d(5) ss fO fU, simp add: TupleTypeRef_def)
  also have "\<dots> = Inr (False, [(0, 0) \<mapsto> 2])"
    using g by (simp add: nullptr_def eval_nat_numeral)
  finally have "deriveSubstitutions (Suc 3) A5 Map.empty 4 5 = Inr (False, [(0, 0) \<mapsto> 2])" .
  moreover have "(4 :: nat) = Suc 3" by simp
  ultimately have e: "deriveSubstitutions 4 A5 Map.empty 4 5 = Inr (False, [(0, 0) \<mapsto> 2])"
    by (simp only:)
  from c1 c2 c3 c4 c5 ce w1 w2 ne u ex e
  have body: "FIND_OR_CREATE_TYPEREF True Allocator_new (GenericTypeParameterArgs 0 0) = Inr (A1, 1)
    \<and> FIND_OR_CREATE_TYPEREF True A1 (NominalArgs ''Int'' nullptr) = Inr (A2, 2)
    \<and> FIND_OR_CREATE_TYPEREF True A2 (NominalArgs ''String'' nullptr) = Inr (A3, 3)
    \<and> FIND_OR_CREATE_TYPEREF True A3 (TupleArgs [1, 1] '''') = Inr (A4, 4)
    \<and> FIND_OR_CREATE_TYPEREF True A4 (TupleArgs [2, 3] '''') = Inr (A5, 5)
    \<and> children_earlier A5
    \<and> walk_binds A5 4 5 (0, 0) 2 \<and> walk_binds A5 4 5 (0, 0) 3 \<and> (2 :: ptr) \<noteq> 3
    \<and> unat (4 :: ptr) \<le> 4
    \<and> (\<exists>Subs'. deriveSubstitutions 4 A5 Map.empty 4 5 = Inr (False, Subs'))
    \<and> deriveSubstitutions 4 A5 Map.empty 4 5 = Inr (False, [(0, 0) \<mapsto> 2])"
    by blast
  show ?thesis by (intro exI) (rule body)
qed


text \<open>
  Claim C4. In an arena that satisfies the invariants of creation, for every node \<open>T\<close>
  from which no generic type parameter is reachable, substitution with the empty map,
  given fuel at least the node's address, returns \<open>T\<close> itself and leaves the allocator as
  it was.
\<close>

theorem subst_empty_identity:
  assumes "Arena_inv sc A"
    and "deref A T = Some TR"
    and "no_GenericTypeParameter A T"
    and "unat T \<le> fuel"
  shows "subst fuel sc Map.empty A T = Inr (A, T)"
  using assms(1,2,4) by (rule subst_empty)

theorem subst_empty_identity_witness:
  "\<exists>A1 p A2 q TR.
      FIND_OR_CREATE_TYPEREF True Allocator_new (BuiltinArgs ''Bi64_'') = Inr (A1, p)
    \<and> FIND_OR_CREATE_TYPEREF True A1 (TupleArgs [p, p] '''') = Inr (A2, q)
    \<and> Arena_inv True A2 \<and> deref A2 q = Some TR \<and> getKind TR = Tuple
    \<and> no_GenericTypeParameter A2 q \<and> unat q \<le> 2
    \<and> subst 2 True Map.empty A2 q = Inr (A2, q)"
proof -
  define A1 where "A1 =
    \<lparr>Pool = [BuiltinTypeRef ''Bi64_''],
     TypeRefs = (\<lambda>K. [])(Builtin := [(Profile True (BuiltinArgs ''Bi64_''), 1)])\<rparr>"
  define A2 where "A2 =
    \<lparr>Pool = [BuiltinTypeRef ''Bi64_'', TupleTypeRef [1, 1] ''''],
     TypeRefs = (\<lambda>K. [])(Builtin := [(Profile True (BuiltinArgs ''Bi64_''), 1)],
                          Tuple := [(Profile True (TupleArgs [1, 1] ''''), 2)])\<rparr>"
  have c1: "FIND_OR_CREATE_TYPEREF True Allocator_new (BuiltinArgs ''Bi64_'') = Inr (A1, 1)"
    by (simp add: A1_def eval_defs)
  have c2: "FIND_OR_CREATE_TYPEREF True A1 (TupleArgs [1, 1] '''') = Inr (A2, 2)"
    by (simp add: A1_def A2_def eval_defs)
  have d1: "deref A2 1 = Some (BuiltinTypeRef ''Bi64_'')"
    and d2: "deref A2 2 = Some (TupleTypeRef [1, 1] '''')"
    by (simp_all add: deref_def A2_def nullptr_def)
  have "Arena_inv True A1"
    using Arena_inv_new c1 by (rule Arena_inv_create) (auto simp: BuiltinTypeRef_def)
  moreover have "deref A1 1 \<noteq> None" by (simp add: deref_def A1_def nullptr_def)
  ultimately have inv: "Arena_inv True A2"
    using c2 by (rule_tac Arena_inv_create) (auto simp: TupleTypeRef_def)
  have r: "U = 2 \<or> U = 1" if "reachable A2 2 U" for U
    using that
  proof (induction rule: reachable.induct)
    case reachable_self
    then show ?case by simp
  next
    case (reachable_child U TR c)
    with d1 d2 show ?case by (auto simp: TupleTypeRef_def BuiltinTypeRef_def)
  qed
  have ng: "no_GenericTypeParameter A2 2"
    unfolding no_GenericTypeParameter_def
  proof (intro allI impI)
    fix U TR assume "reachable A2 2 U" and d: "deref A2 U = Some TR"
    from r [OF this(1)] d d1 d2 show "getKind TR \<noteq> GenericTypeParameter"
      by (auto simp: getKind_def BuiltinTypeRef_def TupleTypeRef_def)
  qed
  have u: "unat (2 :: ptr) \<le> 2" by simp
  from subst_empty_identity [OF inv d2 ng u]
  have "subst 2 True Map.empty A2 2 = Inr (A2, 2)" .
  with c1 c2 inv d2 ng u show ?thesis
    by (intro exI [of _ A1] exI [of _ "1 :: ptr"] exI [of _ A2] exI [of _ "2 :: ptr"]
          exI [of _ "TupleTypeRef [1, 1] ''''"])
       (simp add: getKind_def TupleTypeRef_def)
qed



end
